(* ===== verification/Prelude.thy ===== *)
theory Prelude
  imports Main "HOL-Library.Sublist" "HOL-Library.Multiset"
begin

text \<open>
  Shared vocabulary of the development: the exceptions of the C++ runtime that the
  program can meet, the result type of a call that may throw, and generic facts about
  splitting a list at the last occurrence of a separator, on which the model of
  \<^verbatim>\<open>std::filesystem::path\<close> rests. Nothing in this theory mentions the program itself.

  Two collections are declared for the component theories:
  \<^item> \<open>cfg_simps\<close>: the values of the configuration constants, for evaluating closed terms;
  \<^item> \<open>step_defs\<close>: the definitions of the atomic steps of the worker pool, unfolded when
    one step is analysed.
\<close>

named_theorems cfg_simps "values of the configuration constants"
named_theorems step_defs "definitions of atomic steps"

section \<open>Exceptions and results\<close>

text \<open>
  The exceptions of the standard library that calls of the program can raise:
  \<^verbatim>\<open>std::invalid_argument\<close> and \<^verbatim>\<open>std::out_of_range\<close> from \<^verbatim>\<open>std::stoi\<close>,
  \<^verbatim>\<open>std::filesystem::filesystem_error\<close> from the directory iterator and from
  \<^verbatim>\<open>create_directories\<close>. The program catches none of them.
\<close>

datatype exn = Invalid_argument | Out_of_range | Filesystem_error

type_synonym 'a result = "exn + 'a"

abbreviation Throw :: "exn \<Rightarrow> 'a result" where
  "Throw e \<equiv> Inl e"

abbreviation Return :: "'a \<Rightarrow> 'a result" where
  "Return v \<equiv> Inr v"

definition returns :: "'a result \<Rightarrow> bool" where
  "returns r = (case r of Inl _ \<Rightarrow> False | Inr _ \<Rightarrow> True)"

lemma returns_simps [simp]:
  "returns (Inr v)" "\<not> returns (Inl e)"
  by (simp_all add: returns_def)

lemma returns_iff: "returns r \<longleftrightarrow> (\<exists>v. r = Inr v)"
  by (cases r) simp_all

section \<open>Splitting at the last separator\<close>

text \<open>
  \<open>after_last c s\<close> is what follows the last \<open>c\<close> of \<open>s\<close> (all of \<open>s\<close> when it has none);
  \<open>upto_last c s\<close> is the rest, which ends with that \<open>c\<close>; \<open>strip_trailing c s\<close> removes
  every \<open>c\<close> at the end of \<open>s\<close>.
\<close>

definition after_last :: "'a \<Rightarrow> 'a list \<Rightarrow> 'a list" where
  "after_last c s = rev (takeWhile (\<lambda>x. x \<noteq> c) (rev s))"

definition upto_last :: "'a \<Rightarrow> 'a list \<Rightarrow> 'a list" where
  "upto_last c s = rev (dropWhile (\<lambda>x. x \<noteq> c) (rev s))"

definition strip_trailing :: "'a \<Rightarrow> 'a list \<Rightarrow> 'a list" where
  "strip_trailing c s = rev (dropWhile (\<lambda>x. x = c) (rev s))"

lemma upto_after_last [simp]: "upto_last c s @ after_last c s = s"
proof -
  have "rev (upto_last c s @ after_last c s) = rev s"
    by (simp add: upto_last_def after_last_def)
  then show ?thesis by (simp only: rev_is_rev_conv)
qed

lemma after_last_Nil [simp]: "after_last c [] = []"
  by (simp add: after_last_def)

lemma upto_last_Nil [simp]: "upto_last c [] = []"
  by (simp add: upto_last_def)

lemma after_last_free [simp]: "c \<notin> set (after_last c s)"
proof
  assume "c \<in> set (after_last c s)"
  then have "c \<in> set (takeWhile (\<lambda>x. x \<noteq> c) (rev s))"
    by (simp add: after_last_def)
  then show False by (auto dest: set_takeWhileD)
qed

lemma after_last_append_sep [simp]:
  "c \<notin> set b \<Longrightarrow> after_last c (a @ c # b) = b"
  by (auto simp: after_last_def takeWhile_append)

lemma upto_last_append_sep [simp]:
  assumes "c \<notin> set b"
  shows "upto_last c (a @ c # b) = a @ [c]"
proof -
  have "upto_last c (a @ c # b) @ after_last c (a @ c # b) = (a @ [c]) @ b"
    by (simp only: upto_after_last) simp
  then show ?thesis using assms by simp
qed

lemma after_last_no_sep [simp]:
  assumes "c \<notin> set s"
  shows "after_last c s = s"
proof -
  have h: "takeWhile (\<lambda>x. x \<noteq> c) (rev s) = rev s"
    using assms by (auto simp: takeWhile_eq_all_conv)
  show ?thesis unfolding after_last_def by (simp only: h rev_rev_ident)
qed

lemma upto_last_no_sep [simp]:
  assumes "c \<notin> set s"
  shows "upto_last c s = []"
proof -
  have "upto_last c s @ after_last c s = s" by simp
  then show ?thesis using assms by (simp del: upto_after_last)
qed

lemma after_last_snoc: "after_last c (s @ [x]) = (if x = c then [] else after_last c s @ [x])"
  by (simp add: after_last_def)

lemma after_last_append_no_sep:
  "c \<notin> set b \<Longrightarrow> after_last c (a @ b) = after_last c a @ b"
  by (induction b rule: rev_induct) (auto simp: after_last_snoc simp flip: append_assoc)

lemma upto_last_append_no_sep:
  assumes "c \<notin> set b"
  shows "upto_last c (a @ b) = upto_last c a"
proof -
  have "upto_last c (a @ b) @ after_last c (a @ b) = upto_last c a @ after_last c a @ b"
    by (simp only: upto_after_last) simp
  then show ?thesis using assms by (simp add: after_last_append_no_sep)
qed

lemma after_last_append_right:
  "c \<in> set b \<Longrightarrow> after_last c (a @ b) = after_last c b"
proof -
  assume "c \<in> set b"
  then obtain u v where b: "b = u @ c # v" and v: "c \<notin> set v"
    by (auto dest: split_list_last)
  have "after_last c ((a @ u) @ c # v) = v" using v by (rule after_last_append_sep)
  moreover have "after_last c (u @ c # v) = v" using v by (rule after_last_append_sep)
  ultimately show ?thesis by (simp add: b)
qed

lemma upto_last_last:
  "upto_last c s \<noteq> [] \<Longrightarrow> last (upto_last c s) = c"
proof -
  assume ne: "upto_last c s \<noteq> []"
  then have d: "dropWhile (\<lambda>x. x \<noteq> c) (rev s) \<noteq> []" by (simp add: upto_last_def)
  then have "hd (dropWhile (\<lambda>x. x \<noteq> c) (rev s)) = c"
    using hd_dropWhile [of "\<lambda>x. x \<noteq> c" "rev s"] by simp
  with d show ?thesis by (simp add: upto_last_def last_rev)
qed

lemma after_last_eq_self_iff: "after_last c s = s \<longleftrightarrow> c \<notin> set s"
  by (metis after_last_free after_last_no_sep)

lemma upto_last_eq_Nil_iff: "upto_last c s = [] \<longleftrightarrow> c \<notin> set s"
proof
  assume "upto_last c s = []"
  then have "after_last c s = s"
    using upto_after_last [of c s] by simp
  then show "c \<notin> set s" by (rule iffD1 [OF after_last_eq_self_iff])
qed simp

lemma strip_trailing_Nil [simp]: "strip_trailing c [] = []"
  by (simp add: strip_trailing_def)

lemma strip_trailing_snoc [simp]:
  "strip_trailing c (s @ [x]) = (if x = c then strip_trailing c s else s @ [x])"
  by (simp add: strip_trailing_def)

lemma strip_trailing_last:
  "strip_trailing c s \<noteq> [] \<Longrightarrow> last (strip_trailing c s) \<noteq> c"
  by (induction s rule: rev_induct) (auto split: if_splits)

lemma strip_trailing_prefix: "prefix (strip_trailing c s) s"
  by (induction s rule: rev_induct) (auto split: if_splits)

lemma strip_trailing_idem [simp]:
  "strip_trailing c (strip_trailing c s) = strip_trailing c s"
  by (induction s rule: rev_induct) (auto split: if_splits)

lemma strip_trailing_eq_Nil_iff: "strip_trailing c s = [] \<longleftrightarrow> set s \<subseteq> {c}"
  by (induction s rule: rev_induct) (auto split: if_splits)

section \<open>Suffixes by position\<close>

text \<open>
  A string ends with \<open>t\<close> exactly when it is long enough and its last \<open>length t\<close>
  characters are \<open>t\<close>: the form in which C++ code tests a suffix.
\<close>

lemma suffix_iff_drop:
  "suffix t s \<longleftrightarrow> length t \<le> length s \<and> drop (length s - length t) s = t"
proof
  assume "suffix t s"
  then obtain p where "s = p @ t" by (auto simp: suffix_def)
  then show "length t \<le> length s \<and> drop (length s - length t) s = t" by simp
next
  assume "length t \<le> length s \<and> drop (length s - length t) s = t"
  then have "drop (length s - length t) s = t" ..
  then show "suffix t s" using suffix_drop [of "length s - length t" s] by simp
qed

lemma suffix_append_right [simp]: "suffix t (s @ t)"
  by (simp add: suffix_def)

lemma suffix_append_trans: "suffix t b \<Longrightarrow> suffix t (a @ b)"
  by (rule suffix_appendI)

end
