(* ===== verification/Config.thy ===== *)
theory Config
  imports Prelude
begin

text \<open>
  The configuration block of \<^verbatim>\<open>src/vid_compress.cpp\<close> (lines 11 to 16): four constants
  that every other component reads. Their values are in the collection \<open>cfg_simps\<close> and
  are not unfolded by default, so that the component theorems hold for the names and
  only the closed examples depend on the values.
\<close>

definition MAX_GPU_JOBS :: nat where
  "MAX_GPU_JOBS = 2"

definition DEFAULT_QUALITY :: int where
  "DEFAULT_QUALITY = 5"

definition OUTPUT_ROOT :: string where
  "OUTPUT_ROOT = ''compressed''"

definition PRESET_NAME :: string where
  "PRESET_NAME = ''H.265 Apple VideoToolbox 1080p''"

lemmas config_values [cfg_simps] =
  MAX_GPU_JOBS_def DEFAULT_QUALITY_def OUTPUT_ROOT_def PRESET_NAME_def

lemma MAX_GPU_JOBS_pos [simp]: "0 < MAX_GPU_JOBS"
  by (simp add: MAX_GPU_JOBS_def)

lemma OUTPUT_ROOT_no_separator [simp]: "CHR ''/'' \<notin> set OUTPUT_ROOT"
  by (simp add: OUTPUT_ROOT_def)

lemma OUTPUT_ROOT_nonempty [simp]: "OUTPUT_ROOT \<noteq> []"
  by (simp add: OUTPUT_ROOT_def)

lemma PRESET_NAME_no_quote [simp]: "CHR 0x22 \<notin> set PRESET_NAME"
  by (simp add: PRESET_NAME_def)

end
