(* ===== verification/Cpp_String.thy ===== *)
theory Cpp_String
  imports Prelude
begin

text \<open>
  The operations of \<^verbatim>\<open>std::string\<close> that \<^verbatim>\<open>src/vid_compress.cpp\<close> calls, over
  \<^typ>\<open>string\<close> (a list of bytes, as \<^verbatim>\<open>std::string\<close> is): \<^verbatim>\<open>find\<close> (line 28),
  \<^verbatim>\<open>compare\<close> with a position and a length (line 29), \<^verbatim>\<open>std::to_string\<close> of an
  \<^verbatim>\<open>int\<close> (line 54) and \<^verbatim>\<open>std::stoi\<close> (line 88). Concatenation is \<open>@\<close>.

  \<^verbatim>\<open>npos\<close> is \<open>None\<close>; an exception is the \<open>Inl\<close> of a result. The lemmas relate each
  routine to its list-level meaning: \<open>str_find\<close> finds the first occurrence of a
  contiguous sublist, \<open>str_compare\<close> is 0 exactly for equal strings, and \<open>stoi\<close> reads
  back what \<open>to_string\<close> prints.
\<close>

section \<open>find\<close>

text \<open>\<^verbatim>\<open>s.find(pat)\<close>: the least position at which \<open>pat\<close> occurs in \<open>s\<close>, or \<^verbatim>\<open>npos\<close>.\<close>

primrec str_find :: "string \<Rightarrow> string \<Rightarrow> nat option" where
  "str_find [] pat = (if pat = [] then Some 0 else None)"
| "str_find (x # xs) pat =
     (if prefix pat (x # xs) then Some 0 else map_option Suc (str_find xs pat))"

definition occurs_at :: "string \<Rightarrow> string \<Rightarrow> nat \<Rightarrow> bool" where
  "occurs_at s pat i \<longleftrightarrow> i \<le> length s \<and> prefix pat (drop i s)"

section \<open>substr and compare\<close>

text \<open>
  \<^verbatim>\<open>s.substr(pos, n)\<close> is at most \<open>n\<close> characters from position \<open>pos\<close>; it throws
  \<^verbatim>\<open>std::out_of_range\<close> when \<open>pos\<close> is past the end. \<^verbatim>\<open>s.compare(pos, n, t)\<close> compares
  that substring with \<open>t\<close> by unsigned byte values; only the sign of its result is
  specified, and the model returns \<open>-1\<close>, \<open>0\<close> or \<open>1\<close>.
\<close>

definition substr :: "string \<Rightarrow> nat \<Rightarrow> nat \<Rightarrow> string result" where
  "substr s pos n = (if length s < pos then Throw Out_of_range else Return (take n (drop pos s)))"

fun compare3 :: "string \<Rightarrow> string \<Rightarrow> int" where
  "compare3 [] [] = 0"
| "compare3 [] (y # ys) = - 1"
| "compare3 (x # xs) [] = 1"
| "compare3 (x # xs) (y # ys) =
     (if (of_char x :: nat) < of_char y then - 1
      else if (of_char y :: nat) < of_char x then 1
      else compare3 xs ys)"

definition str_compare :: "string \<Rightarrow> nat \<Rightarrow> nat \<Rightarrow> string \<Rightarrow> int result" where
  "str_compare s pos n t =
     (case substr s pos n of Inl e \<Rightarrow> Throw e | Inr u \<Rightarrow> Return (compare3 u t))"

section \<open>to_string and stoi\<close>

text \<open>
  \<^verbatim>\<open>std::to_string(int)\<close> prints as \<^verbatim>\<open>%d\<close> does: a minus sign for a negative value,
  then the decimal digits without leading zeros.
\<close>

definition digit_char :: "nat \<Rightarrow> char" where
  "digit_char d = char_of (48 + d)"

fun nat_digits :: "nat \<Rightarrow> string" where
  "nat_digits n = (if n < 10 then [digit_char n] else nat_digits (n div 10) @ [digit_char (n mod 10)])"

declare nat_digits.simps [simp del]

definition to_string :: "int \<Rightarrow> string" where
  "to_string i = (if i < 0 then CHR ''-'' # nat_digits (nat (- i)) else nat_digits (nat i))"

text \<open>
  \<^verbatim>\<open>std::stoi(str)\<close> (base 10, no position argument) is \<^verbatim>\<open>strtol\<close> with a range check:
  it skips leading white space, takes an optional sign and the longest run of digits,
  and ignores what follows. With no digit it throws \<^verbatim>\<open>std::invalid_argument\<close>; with a
  value outside the 32-bit \<^verbatim>\<open>int\<close> it throws \<^verbatim>\<open>std::out_of_range\<close>.
\<close>

definition INT_MIN :: int where
  "INT_MIN = - (2 ^ 31)"

definition INT_MAX :: int where
  "INT_MAX = 2 ^ 31 - 1"

definition isspace :: "char \<Rightarrow> bool" where
  "isspace c \<longleftrightarrow> c \<in> set [CHR '' '', CHR 0x09, CHR 0x0A, CHR 0x0B, CHR 0x0C, CHR 0x0D]"

definition isdigit :: "char \<Rightarrow> bool" where
  "isdigit c \<longleftrightarrow> 48 \<le> (of_char c :: nat) \<and> (of_char c :: nat) \<le> 57"

definition digit_val :: "char \<Rightarrow> nat" where
  "digit_val c = of_char c - 48"

definition digits_value :: "string \<Rightarrow> nat" where
  "digits_value ds = foldl (\<lambda>acc c. 10 * acc + digit_val c) 0 ds"

definition split_sign :: "string \<Rightarrow> bool \<times> string" where
  "split_sign s =
     (case s of
        [] \<Rightarrow> (False, [])
      | c # r \<Rightarrow> if c = CHR ''-'' then (True, r) else if c = CHR ''+'' then (False, r) else (False, s))"

definition stoi :: "string \<Rightarrow> int result" where
  "stoi s =
     (let (neg, r) = split_sign (dropWhile isspace s);
          ds = takeWhile isdigit r;
          v = (if neg then - int (digits_value ds) else int (digits_value ds))
      in if ds = [] then Throw Invalid_argument
         else if v < INT_MIN \<or> INT_MAX < v then Throw Out_of_range
         else Return v)"

section \<open>Properties of find\<close>

lemma occurs_at_0 [simp]: "occurs_at s pat 0 \<longleftrightarrow> prefix pat s"
  by (simp add: occurs_at_def)

lemma occurs_at_Suc [simp]: "occurs_at (x # xs) pat (Suc i) \<longleftrightarrow> occurs_at xs pat i"
  by (simp add: occurs_at_def)

lemma occurs_at_Nil [simp]: "occurs_at [] pat i \<longleftrightarrow> i = 0 \<and> pat = []"
  by (auto simp: occurs_at_def)

lemma occurs_at_iff_decomp:
  "occurs_at s pat i \<longleftrightarrow> (\<exists>a b. s = a @ pat @ b \<and> length a = i)"
proof
  assume "occurs_at s pat i"
  then have i: "i \<le> length s" and "prefix pat (drop i s)"
    by (simp_all add: occurs_at_def)
  then obtain b where "drop i s = pat @ b" by (auto simp: prefix_def)
  then have "s = take i s @ pat @ b" by (metis append_take_drop_id)
  with i show "\<exists>a b. s = a @ pat @ b \<and> length a = i"
    by (intro exI [of _ "take i s"] exI [of _ b]) simp
next
  assume "\<exists>a b. s = a @ pat @ b \<and> length a = i"
  then show "occurs_at s pat i" by (auto simp: occurs_at_def)
qed

lemma sublist_iff_occurs: "sublist pat s \<longleftrightarrow> (\<exists>i. occurs_at s pat i)"
  by (auto simp: sublist_def occurs_at_iff_decomp)

lemma str_find_Some_occurs: "str_find s pat = Some i \<Longrightarrow> occurs_at s pat i"
  by (induction s arbitrary: i) (auto split: if_splits)

lemma str_find_Some_least:
  "str_find s pat = Some i \<Longrightarrow> j < i \<Longrightarrow> \<not> occurs_at s pat j"
proof (induction s arbitrary: i j)
  case Nil
  then show ?case by (simp split: if_splits)
next
  case (Cons x xs)
  from Cons.prems obtain k where np: "\<not> prefix pat (x # xs)"
    and k: "str_find xs pat = Some k" and i: "i = Suc k"
    by (auto split: if_splits)
  show ?case
  proof (cases j)
    case 0
    with np show ?thesis by simp
  next
    case (Suc j')
    with Cons.prems i have "j' < k" by simp
    with k have "\<not> occurs_at xs pat j'" by (rule Cons.IH)
    with Suc show ?thesis by simp
  qed
qed

lemma str_find_None_occurs: "str_find s pat = None \<Longrightarrow> \<not> occurs_at s pat i"
proof (induction s arbitrary: i)
  case Nil
  then show ?case by (simp split: if_splits)
next
  case (Cons x xs)
  then show ?case by (cases i) (auto split: if_splits)
qed

lemma str_find_None_iff: "str_find s pat = None \<longleftrightarrow> \<not> sublist pat s"
proof
  assume "str_find s pat = None"
  then show "\<not> sublist pat s"
    by (auto simp: sublist_iff_occurs dest: str_find_None_occurs)
next
  assume ns: "\<not> sublist pat s"
  show "str_find s pat = None"
  proof (cases "str_find s pat")
    case (Some i)
    then have "occurs_at s pat i" by (rule str_find_Some_occurs)
    with ns show ?thesis by (auto simp: sublist_iff_occurs)
  qed simp
qed

lemma str_find_found_iff: "str_find s pat \<noteq> None \<longleftrightarrow> sublist pat s"
  by (simp add: str_find_None_iff)

section \<open>Properties of compare\<close>

lemma compare3_eq_0_iff [simp]: "compare3 a b = 0 \<longleftrightarrow> a = b"
  by (induction a b rule: compare3.induct) (auto simp: of_char_eq_iff)

lemma compare3_range: "compare3 a b \<in> {- 1, 0, 1}"
  by (induction a b rule: compare3.induct) auto

lemma compare3_antisym: "compare3 b a = - compare3 a b"
  by (induction a b rule: compare3.induct) auto

lemma substr_in_range: "pos \<le> length s \<Longrightarrow> substr s pos n = Return (take n (drop pos s))"
  by (simp add: substr_def)

lemma substr_out_of_range: "length s < pos \<Longrightarrow> substr s pos n = Throw Out_of_range"
  by (simp add: substr_def)

lemma str_compare_tail_eq_0_iff:
  "length t \<le> length s \<Longrightarrow>
     str_compare s (length s - length t) (length t) t = Return 0 \<longleftrightarrow> suffix t s"
proof -
  have "\<not> length s < length s - length t" by simp
  then show "length t \<le> length s \<Longrightarrow> ?thesis"
    by (simp add: str_compare_def substr_def suffix_iff_drop)
qed

section \<open>Properties of to_string and stoi\<close>

lemma isdigit_digit_char [simp]: "d < 10 \<Longrightarrow> isdigit (digit_char d)"
  by (simp add: isdigit_def digit_char_def of_char_of)

lemma digit_val_digit_char [simp]: "d < 10 \<Longrightarrow> digit_val (digit_char d) = d"
  by (simp add: digit_val_def digit_char_def of_char_of)

lemma nat_digits_isdigit: "c \<in> set (nat_digits n) \<Longrightarrow> isdigit c"
proof (induction n rule: nat_digits.induct)
  case (1 n)
  then show ?case
    by (subst (asm) nat_digits.simps) (auto split: if_splits)
qed

lemma nat_digits_nonempty [simp]: "nat_digits n \<noteq> []"
  by (subst nat_digits.simps) simp

lemma digits_value_snoc [simp]:
  "digits_value (ds @ [c]) = 10 * digits_value ds + digit_val c"
  by (simp add: digits_value_def)

lemma digits_value_nat_digits [simp]: "digits_value (nat_digits n) = n"
proof (induction n rule: nat_digits.induct)
  case (1 n)
  show ?case
  proof (cases "n < 10")
    case True
    then show ?thesis
      by (subst nat_digits.simps) (simp add: digits_value_def)
  next
    case False
    with "1.IH" have "digits_value (nat_digits (n div 10)) = n div 10" by simp
    with False show ?thesis by (subst nat_digits.simps) simp
  qed
qed

lemma isdigit_not_space: "isdigit c \<Longrightarrow> \<not> isspace c"
  by (auto simp: isdigit_def isspace_def)

lemma isdigit_not_sign: "isdigit c \<Longrightarrow> c \<noteq> CHR ''-'' \<and> c \<noteq> CHR ''+''"
  by (auto simp: isdigit_def)

lemma hd_nat_digits_isdigit: "isdigit (hd (nat_digits n))"
  by (rule nat_digits_isdigit [of _ n]) simp

lemma takeWhile_isdigit_nat_digits [simp]:
  "takeWhile isdigit (nat_digits n) = nat_digits n"
  by (simp add: takeWhile_eq_all_conv nat_digits_isdigit)

lemma dropWhile_isspace_digits:
  "s \<noteq> [] \<Longrightarrow> \<not> isspace (hd s) \<Longrightarrow> dropWhile isspace s = s"
  by (cases s) simp_all

lemma split_sign_nat_digits [simp]: "split_sign (nat_digits n) = (False, nat_digits n)"
proof (cases "nat_digits n")
  case Nil
  then show ?thesis by simp
next
  case (Cons c r)
  then have "isdigit c" using hd_nat_digits_isdigit [of n] by simp
  with Cons show ?thesis by (auto simp: split_sign_def dest: isdigit_not_sign)
qed

lemma stoi_nat_digits:
  "int n \<le> INT_MAX \<Longrightarrow> stoi (nat_digits n) = Return (int n)"
proof -
  assume le: "int n \<le> INT_MAX"
  have "dropWhile isspace (nat_digits n) = nat_digits n"
    by (rule dropWhile_isspace_digits) (simp_all add: isdigit_not_space hd_nat_digits_isdigit)
  moreover have "INT_MIN \<le> int n" by (simp add: INT_MIN_def)
  ultimately show ?thesis using le by (simp add: stoi_def)
qed

lemma stoi_minus_nat_digits:
  "- int n \<ge> INT_MIN \<Longrightarrow> stoi (CHR ''-'' # nat_digits n) = Return (- int n)"
proof -
  assume ge: "- int n \<ge> INT_MIN"
  have sp: "\<not> isspace (CHR ''-'')" by (simp add: isspace_def)
  have "- int n \<le> INT_MAX" by (simp add: INT_MAX_def)
  with ge sp show ?thesis by (simp add: stoi_def split_sign_def)
qed

section \<open>Main results\<close>

text \<open>
  Claim C29. \<^verbatim>\<open>s.find(pat)\<close> returns the least position at which \<open>pat\<close> occurs in \<open>s\<close>
  as a contiguous part, and \<^verbatim>\<open>npos\<close> exactly when \<open>pat\<close> is no contiguous part of \<open>s\<close>.
\<close>

theorem str_find_first_occurrence:
  "str_find s pat = (if sublist pat s then Some (LEAST i. occurs_at s pat i) else None)"
proof (cases "str_find s pat")
  case None
  then show ?thesis by (simp add: str_find_None_iff)
next
  case (Some i)
  then have "occurs_at s pat i" and "\<And>j. occurs_at s pat j \<Longrightarrow> i \<le> j"
    by (auto dest: str_find_Some_occurs str_find_Some_least simp: not_less [symmetric])
  then have "(LEAST i. occurs_at s pat i) = i" by (rule Least_equality)
  moreover have "sublist pat s"
    using Some by (simp add: str_find_found_iff [symmetric])
  ultimately show ?thesis using Some by simp
qed

text \<open>
  Claim C30. \<^verbatim>\<open>std::stoi\<close> reads back what \<^verbatim>\<open>std::to_string\<close> prints: for every value of
  a 32-bit \<^verbatim>\<open>int\<close>, parsing its decimal rendering returns that value and throws nothing.
\<close>

theorem stoi_to_string:
  "INT_MIN \<le> i \<Longrightarrow> i \<le> INT_MAX \<Longrightarrow> stoi (to_string i) = Return i"
proof (cases "i < 0")
  case True
  assume "INT_MIN \<le> i"
  with True have "- int (nat (- i)) \<ge> INT_MIN" by simp
  then have "stoi (CHR ''-'' # nat_digits (nat (- i))) = Return (- int (nat (- i)))"
    by (rule stoi_minus_nat_digits)
  with True show ?thesis by (simp add: to_string_def)
next
  case False
  assume "i \<le> INT_MAX"
  with False have "int (nat i) \<le> INT_MAX" by simp
  then have "stoi (nat_digits (nat i)) = Return (int (nat i))" by (rule stoi_nat_digits)
  with False show ?thesis by (simp add: to_string_def)
qed

theorem stoi_to_string_witness:
  "INT_MIN \<le> 5 \<and> 5 \<le> INT_MAX \<and> stoi (to_string 5) = Return 5"
  using stoi_to_string [of 5] by (simp add: INT_MIN_def INT_MAX_def)


end
