(* ===== verification/Fs_Path.thy ===== *)
theory Fs_Path
  imports Cpp_String
begin

text \<open>
  The members of \<^verbatim>\<open>std::filesystem::path\<close> that \<^verbatim>\<open>src/vid_compress.cpp\<close> calls:
  \<^verbatim>\<open>extension\<close> (line 22), \<^verbatim>\<open>parent_path\<close> and \<^verbatim>\<open>operator/=\<close> (line 40), \<^verbatim>\<open>stem\<close> and
  \<^verbatim>\<open>operator/\<close> (line 45), \<^verbatim>\<open>filename\<close> (lines 47 and 102). A path is its pathname
  string, as in the library, and every member is a function of that string.

  The model is the POSIX behaviour of C++17 ([fs.path.decompose], [fs.path.append]) as
  libc++ implements it: the separator is \<open>/\<close>, there are no root names, a path is
  absolute when it starts with a separator, a leading period does not start an
  extension, and a run of separators counts as one. Where implementations differ (the
  parent of a path with several leading separators) the model follows libc++, the
  library of the platform the configuration block names.

  The lemmas give the decomposition laws (\<open>stem\<close> and \<open>extension\<close> concatenate to
  \<open>filename\<close>; \<open>filename\<close> has no separator) and the laws of appending one component,
  which is how the directory iterator builds the paths that the program sees.
\<close>

type_synonym path = string

abbreviation sep :: char where
  "sep \<equiv> CHR ''/''"

abbreviation dot :: char where
  "dot \<equiv> CHR ''.''"

section \<open>Decomposition\<close>

definition filename :: "path \<Rightarrow> path" where
  "filename p = after_last sep p"

text \<open>
  The split of a file name into stem and extension: none for \<open>.\<close>, \<open>..\<close> and the empty
  name, none when the only period is the first character, else at the last period.
\<close>

definition separate_filename :: "string \<Rightarrow> string \<times> string" where
  "separate_filename f =
     (if f = ''.'' \<or> f = ''..'' \<or> f = [] then (f, [])
      else if upto_last dot f = [] \<or> upto_last dot f = ''.'' then (f, [])
      else (butlast (upto_last dot f), dot # after_last dot f))"

definition stem :: "path \<Rightarrow> path" where
  "stem p = fst (separate_filename (filename p))"

definition extension :: "path \<Rightarrow> path" where
  "extension p = snd (separate_filename (filename p))"

definition is_absolute :: "path \<Rightarrow> bool" where
  "is_absolute p \<longleftrightarrow> (case p of [] \<Rightarrow> False | c # _ \<Rightarrow> c = sep)"

definition has_filename :: "path \<Rightarrow> bool" where
  "has_filename p \<longleftrightarrow> filename p \<noteq> []"

definition has_relative_path :: "path \<Rightarrow> bool" where
  "has_relative_path p \<longleftrightarrow> list_ex (\<lambda>c. c \<noteq> sep) p"

text \<open>
  \<^verbatim>\<open>parent_path\<close>: the path itself when it has no relative part; otherwise the path
  without its last element and without the separators before it, except that a root
  directory is kept.
\<close>

definition parent_path :: "path \<Rightarrow> path" where
  "parent_path p =
     (if \<not> has_relative_path p then p
      else if strip_trailing sep (upto_last sep p) = [] then upto_last sep p
      else strip_trailing sep (upto_last sep p))"

section \<open>Appending\<close>

text \<open>
  \<^verbatim>\<open>operator/=\<close> and \<^verbatim>\<open>operator/\<close>: an absolute right operand replaces the left one;
  otherwise a separator is put between them unless the left one has no file name.
\<close>

definition path_append :: "path \<Rightarrow> path \<Rightarrow> path" where
  "path_append p q =
     (if is_absolute q then q
      else if has_filename p then p @ sep # q
      else p @ q)"

section \<open>Laws of decomposition\<close>

lemma filename_no_sep [simp]: "sep \<notin> set (filename p)"
  by (simp add: filename_def)

lemma filename_Nil [simp]: "filename [] = []"
  by (simp add: filename_def)

lemma filename_of_name [simp]: "sep \<notin> set n \<Longrightarrow> filename n = n"
  by (simp add: filename_def)

lemma filename_after_sep [simp]: "sep \<notin> set n \<Longrightarrow> filename (p @ sep # n) = n"
  by (simp add: filename_def)

lemma filename_idem [simp]: "filename (filename p) = filename p"
  by simp

lemma filename_suffix: "suffix (filename p) p"
  by (metis filename_def suffixI upto_after_last)

lemma separate_filename_concat:
  "fst (separate_filename f) @ snd (separate_filename f) = f"
proof -
  have "butlast (upto_last dot f) @ dot # after_last dot f = f" if "upto_last dot f \<noteq> []"
  proof -
    from that have "butlast (upto_last dot f) @ [dot] = upto_last dot f"
      using upto_last_last [of dot f] by (metis append_butlast_last_id)
    then have "(butlast (upto_last dot f) @ [dot]) @ after_last dot f = f" by simp
    then show ?thesis by simp
  qed
  then show ?thesis by (simp add: separate_filename_def)
qed

lemma stem_extension [simp]: "stem p @ extension p = filename p"
  by (simp add: stem_def extension_def separate_filename_concat)

lemma extension_shape:
  "extension p = [] \<or> (\<exists>e. extension p = dot # e \<and> dot \<notin> set e)"
  by (auto simp: extension_def separate_filename_def)

lemma extension_no_sep [simp]: "sep \<notin> set (extension p)"
proof -
  have "set (extension p) \<subseteq> set (filename p)"
    using stem_extension [of p] by (metis Un_upper2 set_append)
  then show ?thesis using filename_no_sep [of p] by blast
qed

lemma stem_no_sep [simp]: "sep \<notin> set (stem p)"
proof -
  have "set (stem p) \<subseteq> set (filename p)"
    using stem_extension [of p] by (metis Un_upper1 set_append)
  then show ?thesis using filename_no_sep [of p] by blast
qed

lemma extension_stem_nonempty: "extension p \<noteq> [] \<Longrightarrow> stem p \<noteq> []"
proof -
  assume e: "extension p \<noteq> []"
  let ?f = "filename p"
  from e have u: "upto_last dot ?f \<noteq> []" "upto_last dot ?f \<noteq> ''.''"
    and s: "stem p = butlast (upto_last dot ?f)"
    by (auto simp: extension_def stem_def separate_filename_def split: if_splits)
  from u(1) have "last (upto_last dot ?f) = dot" by (rule upto_last_last)
  with u have "butlast (upto_last dot ?f) \<noteq> []"
    by (metis append_butlast_last_id append_Nil)
  with s show ?thesis by simp
qed

lemma extension_of_filename [simp]: "extension (filename p) = extension p"
  by (simp add: extension_def)

lemma stem_of_filename [simp]: "stem (filename p) = stem p"
  by (simp add: stem_def)

text \<open>The extension of a name that ends in a period-free, separator-free suffix after a period.\<close>

lemma separate_filename_dotted:
  assumes "b \<noteq> []" and "dot \<notin> set e" and "e \<noteq> []"
  shows "separate_filename (b @ dot # e) = (b, dot # e)"
proof -
  have u: "upto_last dot (b @ dot # e) = b @ [dot]" and a: "after_last dot (b @ dot # e) = e"
    using assms(2) by simp_all
  have "3 \<le> length (b @ dot # e)" and "2 \<le> length (b @ [dot])"
    using assms(1,3) by (cases b; cases e; simp)+
  then have "b @ dot # e \<noteq> ''.''" "b @ dot # e \<noteq> ''..''" "b @ [dot] \<noteq> ''.''"
    by (auto dest: arg_cong [where f = length])
  then show ?thesis by (simp add: separate_filename_def u a)
qed

lemma separate_filename_no_dot:
  "dot \<notin> set f \<Longrightarrow> separate_filename f = (f, [])"
  by (simp add: separate_filename_def)

lemma filename_append_name: "sep \<notin> set n \<Longrightarrow> filename (p @ n) = filename p @ n"
  by (simp add: filename_def after_last_append_no_sep)

lemma extension_append_dotted:
  assumes "dot \<notin> set e" and "sep \<notin> set e"
  shows "extension (p @ dot # e) = [] \<or> extension (p @ dot # e) = dot # e"
proof -
  have f: "filename (p @ dot # e) = filename p @ dot # e"
    using assms(2) by (simp add: filename_append_name)
  have "after_last dot (filename p @ dot # e) = e"
    using assms(1) by simp
  then show ?thesis by (simp add: extension_def f separate_filename_def)
qed

section \<open>Laws of appending\<close>

lemma is_absolute_simps [simp]:
  "\<not> is_absolute []" "is_absolute (c # p) \<longleftrightarrow> c = sep"
  by (simp_all add: is_absolute_def)

lemma is_absolute_no_sep: "sep \<notin> set q \<Longrightarrow> \<not> is_absolute q"
  by (cases q) auto

lemma has_filename_iff: "has_filename p \<longleftrightarrow> p \<noteq> [] \<and> last p \<noteq> sep"
proof (cases p rule: rev_cases)
  case Nil
  then show ?thesis by (simp add: has_filename_def)
next
  case (snoc q c)
  then show ?thesis by (simp add: has_filename_def filename_def after_last_snoc)
qed

lemma path_append_absolute [simp]: "is_absolute q \<Longrightarrow> path_append p q = q"
  by (simp add: path_append_def)

lemma path_append_relative_suffix: "\<not> is_absolute q \<Longrightarrow> suffix q (path_append p q)"
  by (auto simp: path_append_def suffix_def intro: exI [of _ "p @ [sep]"])

lemma path_append_suffix [simp]: "suffix q (path_append p q)"
  by (cases "is_absolute q") (simp_all add: path_append_relative_suffix)

lemma path_append_relative_prefix: "\<not> is_absolute q \<Longrightarrow> prefix p (path_append p q)"
  by (simp add: path_append_def)

lemma path_append_Nil_left [simp]: "path_append [] q = q"
  by (simp add: path_append_def has_filename_def)

lemma filename_path_append [simp]:
  assumes "sep \<notin> set n"
  shows "filename (path_append p n) = n"
proof (cases "has_filename p")
  case True
  with assms show ?thesis by (simp add: path_append_def is_absolute_no_sep)
next
  case False
  show ?thesis
  proof (cases p rule: rev_cases)
    case Nil
    with assms show ?thesis by simp
  next
    case (snoc q c)
    with False have "c = sep" by (simp add: has_filename_iff)
    with snoc False assms show ?thesis
      by (simp add: path_append_def is_absolute_no_sep)
  qed
qed

lemma has_relative_path_iff: "has_relative_path p \<longleftrightarrow> \<not> set p \<subseteq> {sep}"
  by (auto simp: has_relative_path_def list_ex_iff)

lemma parent_path_of_name [simp]: "sep \<notin> set n \<Longrightarrow> parent_path n = []"
  by (cases n) (auto simp: parent_path_def has_relative_path_def)

lemma parent_path_after_sep:
  assumes "sep \<notin> set n" and "n \<noteq> []"
  shows "parent_path (p @ sep # n) =
    (if strip_trailing sep p = [] then p @ [sep] else strip_trailing sep p)"
proof -
  have "has_relative_path (p @ sep # n)"
    using assms by (cases n) (auto simp: has_relative_path_iff)
  moreover have "upto_last sep (p @ sep # n) = p @ [sep]" using assms(1) by simp
  ultimately show ?thesis by (simp add: parent_path_def)
qed

lemma parent_path_path_append:
  assumes "sep \<notin> set n" and "n \<noteq> []" and "has_filename p"
  shows "parent_path (path_append p n) = p"
proof -
  from assms(3) have p: "p \<noteq> []" "last p \<noteq> sep" by (simp_all add: has_filename_iff)
  then have "strip_trailing sep p = p"
    by (cases p rule: rev_cases) simp_all
  with p assms show ?thesis
    by (simp add: path_append_def is_absolute_no_sep parent_path_after_sep)
qed

section \<open>Parents of absolute and relative paths\<close>

lemma parent_path_prefix: "prefix (parent_path p) p"
proof -
  have u: "prefix (upto_last sep p) p"
    by (metis prefixI upto_after_last)
  have "prefix (strip_trailing sep (upto_last sep p)) (upto_last sep p)"
    by (rule strip_trailing_prefix)
  with u have "prefix (strip_trailing sep (upto_last sep p)) p"
    by (rule prefix_order.trans [rotated])
  with u show ?thesis by (simp add: parent_path_def)
qed

lemma prefix_is_absolute: "prefix a p \<Longrightarrow> a \<noteq> [] \<Longrightarrow> is_absolute a = is_absolute p"
  by (cases a; cases p) auto

lemma upto_last_absolute: "is_absolute p \<Longrightarrow> upto_last sep p \<noteq> []"
  by (cases p) (auto simp: upto_last_eq_Nil_iff)

lemma parent_path_absolute: "is_absolute p \<Longrightarrow> is_absolute (parent_path p)"
proof -
  assume a: "is_absolute p"
  then have "parent_path p \<noteq> []"
    using upto_last_absolute [of p] by (cases p) (auto simp: parent_path_def)
  with a show ?thesis using prefix_is_absolute [OF parent_path_prefix] by blast
qed

lemma parent_path_relative: "\<not> is_absolute p \<Longrightarrow> \<not> is_absolute (parent_path p)"
  using prefix_is_absolute [OF parent_path_prefix, of p] by (cases "parent_path p = []") auto

lemma parent_path_has_filename:
  assumes "\<not> is_absolute p" and "parent_path p \<noteq> []"
  shows "has_filename (parent_path p)"
proof -
  let ?u = "upto_last sep p" and ?s = "strip_trailing sep (upto_last sep p)"
  have rel: "has_relative_path p"
    using assms by (cases p) (auto simp: has_relative_path_def)
  have "?s \<noteq> []"
  proof
    assume s: "?s = []"
    with rel assms(2) have "?u \<noteq> []" by (simp add: parent_path_def)
    moreover from s have "set ?u \<subseteq> {sep}" by (simp add: strip_trailing_eq_Nil_iff)
    ultimately have "is_absolute ?u" by (cases ?u) auto
    moreover have "prefix ?u p" by (metis prefixI upto_after_last)
    ultimately show False using assms(1) \<open>?u \<noteq> []\<close> prefix_is_absolute by blast
  qed
  then have "parent_path p = ?s" "last ?s \<noteq> sep"
    using rel by (simp_all add: parent_path_def strip_trailing_last)
  with \<open>?s \<noteq> []\<close> show ?thesis by (simp add: has_filename_iff)
qed

section \<open>Main results\<close>

text \<open>
  Claim C31. Appending one directory entry name to a directory path, as the directory
  iterator does, gives a path whose \<^verbatim>\<open>filename\<close> is that name and, when the directory
  path does not end with a separator, whose \<^verbatim>\<open>parent_path\<close> is the directory path.
\<close>

theorem path_append_entry:
  assumes "sep \<notin> set n" and "n \<noteq> []" and "has_filename d"
  shows "filename (path_append d n) = n \<and> parent_path (path_append d n) = d"
  using assms by (simp add: parent_path_path_append)

theorem path_append_entry_witness:
  "sep \<notin> set ''a.mp4'' \<and> ''a.mp4'' \<noteq> [] \<and> has_filename ''videos'' \<and>
   filename (path_append ''videos'' ''a.mp4'') = ''a.mp4'' \<and>
   parent_path (path_append ''videos'' ''a.mp4'') = ''videos''"
  using path_append_entry [of "''a.mp4''" "''videos''"]
  by (simp add: has_filename_iff)

text \<open>
  Claim C32. \<^verbatim>\<open>stem\<close> and \<^verbatim>\<open>extension\<close> split \<^verbatim>\<open>filename\<close> without loss, neither holds
  a separator, and an extension is empty or one period followed by period-free text
  after a non-empty stem.
\<close>

theorem stem_extension_decomposition:
  "stem p @ extension p = filename p \<and> sep \<notin> set (stem p) \<and> sep \<notin> set (extension p) \<and>
   (extension p = [] \<or> (\<exists>e. extension p = dot # e \<and> dot \<notin> set e \<and> stem p \<noteq> []))"
  using extension_shape [of p] extension_stem_nonempty [of p] by auto

end
