(* ===== verification/Media_Filter.thy ===== *)
theory Media_Filter
  imports Config Fs_Path
begin

text \<open>
  The two predicates on paths of \<^verbatim>\<open>src/vid_compress.cpp\<close>: \<^verbatim>\<open>isVideoFile\<close> (lines 21 to
  24), which the scan applies to every regular file, and \<^verbatim>\<open>alreadyCompressed\<close> (lines 26
  to 30), which \<^verbatim>\<open>compressOne\<close> applies to every job before doing anything.

  Both are translated call by call. The lemmas give each an equivalent list-level
  reading: \<open>isVideoFile\<close> holds exactly for file names of the form stem, period, one of
  four lower-case extensions; \<open>alreadyCompressed\<close> holds exactly when the pathname has
  \<open>/compressed/\<close> as a contiguous part or ends with \<open>_compressed.mp4\<close>.
\<close>

section \<open>Definitions\<close>

definition isVideoFile :: "path \<Rightarrow> bool" where
  "isVideoFile p =
     (let ext = extension p
      in ext = ''.mp4'' \<or> ext = ''.mov'' \<or> ext = ''.mkv'' \<or> ext = ''.m4v'')"

definition alreadyCompressed :: "path \<Rightarrow> bool" where
  "alreadyCompressed p =
     (let s = p
      in str_find s (''/'' @ OUTPUT_ROOT @ ''/'') \<noteq> None \<or>
         (15 \<le> length s \<and> str_compare s (length s - 15) 15 ''_compressed.mp4'' = Return 0))"

text \<open>
  The reference readings. \<open>OUTPUT_SUFFIX\<close> names the literal that the source writes
  twice, in \<^verbatim>\<open>alreadyCompressed\<close> and in \<^verbatim>\<open>compressOne\<close>.
\<close>

definition OUTPUT_SUFFIX :: string where
  "OUTPUT_SUFFIX = ''_compressed.mp4''"

definition video_extensions :: "string list" where
  "video_extensions = [''mp4'', ''mov'', ''mkv'', ''m4v'']"

definition under_output_root :: "path \<Rightarrow> bool" where
  "under_output_root p \<longleftrightarrow> sublist (sep # OUTPUT_ROOT @ [sep]) p"

definition has_output_suffix :: "path \<Rightarrow> bool" where
  "has_output_suffix p \<longleftrightarrow> suffix OUTPUT_SUFFIX p"

section \<open>alreadyCompressed\<close>

lemma length_OUTPUT_SUFFIX [simp]: "length OUTPUT_SUFFIX = 15"
  by (simp add: OUTPUT_SUFFIX_def)

lemma OUTPUT_SUFFIX_no_sep [simp]: "sep \<notin> set OUTPUT_SUFFIX"
  by (simp add: OUTPUT_SUFFIX_def)

lemma suffix_test_named:
  "15 \<le> length s \<and> str_compare s (length s - 15) 15 OUTPUT_SUFFIX = Return 0
     \<longleftrightarrow> has_output_suffix s"
proof (cases "15 \<le> length s")
  case True
  then show ?thesis
    using str_compare_tail_eq_0_iff [of OUTPUT_SUFFIX s] by (simp add: has_output_suffix_def)
next
  case False
  then have "\<not> suffix OUTPUT_SUFFIX s" by (auto dest: suffix_length_le)
  with False show ?thesis by (simp add: has_output_suffix_def)
qed

lemma suffix_test_iff:
  "15 \<le> length s \<and> str_compare s (length s - 15) 15 ''_compressed.mp4'' = Return 0
     \<longleftrightarrow> has_output_suffix s"
  using suffix_test_named [of s] unfolding OUTPUT_SUFFIX_def .

lemma alreadyCompressed_iff:
  "alreadyCompressed p \<longleftrightarrow> under_output_root p \<or> has_output_suffix p"
proof -
  have "(str_find p (''/'' @ OUTPUT_ROOT @ ''/'') \<noteq> None) = under_output_root p"
    unfolding str_find_found_iff under_output_root_def by simp
  then show ?thesis
    unfolding alreadyCompressed_def Let_def suffix_test_iff by (simp only:)
qed

lemma under_output_rootI: "under_output_root (a @ sep # OUTPUT_ROOT @ sep # b)"
proof -
  have "sublist (sep # OUTPUT_ROOT @ [sep]) (a @ (sep # OUTPUT_ROOT @ [sep]) @ b)"
    by (rule sublist_appendI)
  then show ?thesis by (simp add: under_output_root_def)
qed

lemma under_output_root_append_left:
  "under_output_root p \<Longrightarrow> under_output_root (a @ p)"
  unfolding under_output_root_def sublist_def by (metis append.assoc)

lemma under_output_root_append_right:
  "under_output_root p \<Longrightarrow> under_output_root (p @ b)"
  unfolding under_output_root_def sublist_def by (metis append.assoc)

lemma has_output_suffix_append [simp]: "has_output_suffix (a @ OUTPUT_SUFFIX)"
  by (simp add: has_output_suffix_def)

lemma has_output_suffix_trans: "suffix q p \<Longrightarrow> has_output_suffix q \<Longrightarrow> has_output_suffix p"
  unfolding has_output_suffix_def by (rule suffix_order.trans)

section \<open>isVideoFile\<close>

lemma isVideoFile_iff_extension:
  "isVideoFile p \<longleftrightarrow> extension p \<in> (\<lambda>e. dot # e) ` set video_extensions"
  by (auto simp: isVideoFile_def video_extensions_def)

lemma video_extension_shape:
  "e \<in> set video_extensions \<Longrightarrow> dot \<notin> set e \<and> sep \<notin> set e \<and> e \<noteq> []"
  by (auto simp: video_extensions_def)

lemma isVideoFile_filename [simp]: "isVideoFile (filename p) = isVideoFile p"
  by (simp add: isVideoFile_def)

lemma isVideoFile_iff_name:
  "isVideoFile p \<longleftrightarrow>
     (\<exists>b e. filename p = b @ dot # e \<and> b \<noteq> [] \<and> e \<in> set video_extensions)"
proof
  assume v: "isVideoFile p"
  then obtain e where e: "e \<in> set video_extensions" and x: "extension p = dot # e"
    by (auto simp: isVideoFile_iff_extension)
  from x have "stem p \<noteq> []" by (intro extension_stem_nonempty) simp
  moreover have "filename p = stem p @ dot # e"
    using stem_extension [of p] x by simp
  ultimately show "\<exists>b e. filename p = b @ dot # e \<and> b \<noteq> [] \<and> e \<in> set video_extensions"
    using e by blast
next
  assume "\<exists>b e. filename p = b @ dot # e \<and> b \<noteq> [] \<and> e \<in> set video_extensions"
  then obtain b e where f: "filename p = b @ dot # e" and b: "b \<noteq> []"
    and e: "e \<in> set video_extensions" by blast
  from e have "dot \<notin> set e" "e \<noteq> []" by (simp_all add: video_extension_shape)
  with b have "separate_filename (b @ dot # e) = (b, dot # e)"
    by (intro separate_filename_dotted)
  with f have "extension p = dot # e" by (simp add: extension_def)
  with e show "isVideoFile p" by (auto simp: isVideoFile_iff_extension)
qed

lemma isVideoFile_stem_nonempty: "isVideoFile p \<Longrightarrow> stem p \<noteq> []"
  by (rule extension_stem_nonempty) (auto simp: isVideoFile_def)

section \<open>Main results\<close>

text \<open>
  Claim C10. \<^verbatim>\<open>alreadyCompressed\<close> returns true exactly for a pathname that contains
  \<open>/compressed/\<close> as a contiguous part or that ends with \<open>_compressed.mp4\<close>; the guard on
  the length makes the suffix test total.
\<close>

theorem alreadyCompressed_spec:
  "alreadyCompressed p \<longleftrightarrow> sublist ''/compressed/'' p \<or> suffix ''_compressed.mp4'' p"
  by (simp add: alreadyCompressed_iff under_output_root_def has_output_suffix_def
      OUTPUT_ROOT_def OUTPUT_SUFFIX_def)

text \<open>
  Claim C20. \<^verbatim>\<open>isVideoFile\<close> returns true exactly when the last component of the path
  is a non-empty stem, a period and one of \<open>mp4\<close>, \<open>mov\<close>, \<open>mkv\<close>, \<open>m4v\<close> in lower case.
\<close>

theorem isVideoFile_spec:
  "isVideoFile p \<longleftrightarrow>
     (\<exists>b e. filename p = b @ ''.'' @ e \<and> b \<noteq> [] \<and> e \<in> {''mp4'', ''mov'', ''mkv'', ''m4v''})"
  using isVideoFile_iff_name [of p] by (simp add: video_extensions_def)

text \<open>
  Claim C28. Extension matching is case-sensitive: no path that ends with \<open>.MP4\<close> in upper
  case is a video file for the scan, whatever precedes the extension.
\<close>

theorem isVideoFile_case_sensitive: "\<not> isVideoFile (p @ ''.MP4'')"
proof -
  have "extension (p @ dot # ''MP4'') = [] \<or> extension (p @ dot # ''MP4'') = dot # ''MP4''"
    by (rule extension_append_dotted) simp_all
  then show ?thesis by (auto simp: isVideoFile_def)
qed

end
