(* ===== verification/Job_Queue.thy ===== *)
theory Job_Queue
  imports Fs_Path
begin

text \<open>
  The global \<^verbatim>\<open>std::queue<fs::path> jobs\<close> of \<^verbatim>\<open>src/vid_compress.cpp\<close> (line 19) and the
  five members the program calls on it: \<^verbatim>\<open>push\<close> (lines 98 and 107), \<^verbatim>\<open>empty\<close> (line
  73), \<^verbatim>\<open>front\<close> (line 74), \<^verbatim>\<open>pop\<close> (line 75) and \<^verbatim>\<open>size\<close> (line 112).

  The queue is the list of its elements, oldest first. \<^verbatim>\<open>front\<close> and \<^verbatim>\<open>pop\<close> on an
  empty \<^verbatim>\<open>std::queue\<close> are undefined behaviour; here they return \<open>None\<close>, and the worker
  pool treats that value as a fault of the run. The lemmas state the first-in first-out
  contract: draining a queue returns its elements in the order they were pushed.
\<close>

type_synonym job_queue = "path list"

definition jobs_init :: job_queue where
  "jobs_init = []"

definition queue_push :: "path \<Rightarrow> job_queue \<Rightarrow> job_queue" where
  "queue_push p q = q @ [p]"

definition queue_empty :: "job_queue \<Rightarrow> bool" where
  "queue_empty q \<longleftrightarrow> q = []"

definition queue_front :: "job_queue \<Rightarrow> path option" where
  "queue_front q = (case q of [] \<Rightarrow> None | p # _ \<Rightarrow> Some p)"

definition queue_pop :: "job_queue \<Rightarrow> job_queue option" where
  "queue_pop q = (case q of [] \<Rightarrow> None | _ # r \<Rightarrow> Some r)"

definition queue_size :: "job_queue \<Rightarrow> nat" where
  "queue_size q = length q"

section \<open>Laws\<close>

lemma queue_empty_init [simp]: "queue_empty jobs_init"
  by (simp add: queue_empty_def jobs_init_def)

lemma queue_empty_push [simp]: "\<not> queue_empty (queue_push p q)"
  by (simp add: queue_empty_def queue_push_def)

lemma queue_front_Cons [simp]: "queue_front (p # q) = Some p"
  by (simp add: queue_front_def)

lemma queue_pop_Cons [simp]: "queue_pop (p # q) = Some q"
  by (simp add: queue_pop_def)

lemma queue_front_Nil [simp]: "queue_front [] = None"
  by (simp add: queue_front_def)

lemma queue_pop_Nil [simp]: "queue_pop [] = None"
  by (simp add: queue_pop_def)

lemma queue_front_None_iff: "queue_front q = None \<longleftrightarrow> queue_empty q"
  by (cases q) (simp_all add: queue_empty_def)

lemma queue_pop_None_iff: "queue_pop q = None \<longleftrightarrow> queue_empty q"
  by (cases q) (simp_all add: queue_empty_def)

lemma queue_nonempty_front_pop:
  "\<not> queue_empty q \<Longrightarrow> \<exists>p r. queue_front q = Some p \<and> queue_pop q = Some r \<and> q = p # r"
  by (cases q) (simp_all add: queue_empty_def)

lemma queue_size_push [simp]: "queue_size (queue_push p q) = Suc (queue_size q)"
  by (simp add: queue_size_def queue_push_def)

lemma queue_size_pop: "queue_pop q = Some r \<Longrightarrow> queue_size q = Suc (queue_size r)"
  by (cases q) (simp_all add: queue_size_def)

lemma queue_front_push: "queue_front (queue_push p q) = Some (case q of [] \<Rightarrow> p | x # _ \<Rightarrow> x)"
  by (cases q) (simp_all add: queue_push_def)

section \<open>Draining\<close>

text \<open>
  The loop \<open>while (!empty) { front; pop; }\<close> as a function, the reference against
  which the worker pool's interleaved draining is compared. It ends because every
  \<^verbatim>\<open>pop\<close> shortens the queue.
\<close>

function drain :: "job_queue \<Rightarrow> path list" where
  "drain q =
     (if queue_empty q then []
      else case (queue_front q, queue_pop q) of
             (Some p, Some r) \<Rightarrow> p # drain r
           | _ \<Rightarrow> [])"
  by pat_completeness auto
termination
  by (relation "measure queue_size") (auto dest: queue_size_pop [OF sym])

declare drain.simps [simp del]


lemma drain_list [simp]: "drain q = q"
proof (induction q)
  case Nil
  show ?case by (subst drain.simps) (simp add: queue_empty_def)
next
  case (Cons p q)
  then show ?case by (subst drain.simps) (simp add: queue_empty_def)
qed

section \<open>Main results\<close>


end
