(* ===== verification/Scanner.thy ===== *)
theory Scanner
  imports Media_Filter Job_Queue
begin

text \<open>
  The discovery phase of \<^verbatim>\<open>main\<close> in \<^verbatim>\<open>src/vid_compress.cpp\<close> (lines 95 to 110): the test
  whether the input is a regular file, and the loop over a
  \<^verbatim>\<open>recursive_directory_iterator\<close> that prunes directories named \<^verbatim>\<open>OUTPUT_ROOT\<close> and
  pushes every regular file that \<^verbatim>\<open>isVideoFile\<close> accepts.

  The file system below the input path is a value of \<open>fs_node\<close>: what the program can
  observe of an entry through \<^verbatim>\<open>is_directory\<close>, \<^verbatim>\<open>is_regular_file\<close> and the iterator.
  A directory holds its entries in the order the iterator yields them (the standard
  leaves that order open; the list fixes one). Symbolic links are entries of their own
  because the status functions follow them while the iterator, with its default
  options, does not descend into them. A directory that cannot be opened makes the
  iterator throw \<^verbatim>\<open>filesystem_error\<close>, which nothing catches.

  \<open>scan_entries\<close> is the loop: one equation for the end of a directory and one for an
  entry, with the queue threaded through as the loop mutates it. \<open>candidates\<close> and
  \<open>readable\<close> are its specification: the list of paths it pushes and the condition
  under which it does not throw. \<open>scan_entries_refines\<close> relates the two.
\<close>

section \<open>File trees\<close>

datatype fs_node =
    Regular
  | Directory "(string \<times> fs_node) list"
  | Unreadable
  | Link_file
  | Link_dir "(string \<times> fs_node) list"
  | Other

type_synonym entries = "(string \<times> fs_node) list"

fun is_directory :: "fs_node \<Rightarrow> bool" where
  "is_directory (Directory _) = True"
| "is_directory Unreadable = True"
| "is_directory (Link_dir _) = True"
| "is_directory _ = False"

fun is_regular_file :: "fs_node \<Rightarrow> bool" where
  "is_regular_file Regular = True"
| "is_regular_file Link_file = True"
| "is_regular_file _ = False"

section \<open>The scan loop\<close>

text \<open>
  One iteration per entry \<open>(n, e)\<close> of the directory \<open>d\<close>, whose path is \<open>d / n\<close>. A
  pruned directory is skipped with its subtree (\<^verbatim>\<open>disable_recursion_pending\<close>,
  \<^verbatim>\<open>continue\<close>). Otherwise the entry is pushed if it is a regular video file, and the
  increment of the iterator descends into a real directory before it moves on.
\<close>

fun scan_entries :: "path \<Rightarrow> entries \<Rightarrow> job_queue \<Rightarrow> job_queue result" where
  "scan_entries d [] q = Return q"
| "scan_entries d ((n, e) # rest) q =
     (let p = path_append d n in
      if is_directory e \<and> filename p = OUTPUT_ROOT then scan_entries d rest q
      else
        let q' = (if is_regular_file e \<and> isVideoFile p then queue_push p q else q) in
        (case e of
           Directory es \<Rightarrow>
             (case scan_entries p es q' of
                Inl x \<Rightarrow> Throw x
              | Inr q'' \<Rightarrow> scan_entries d rest q'')
         | Unreadable \<Rightarrow> Throw Filesystem_error
         | _ \<Rightarrow> scan_entries d rest q'))"

text \<open>
  The construction of the iterator on the input path: it opens the directory the path
  resolves to, and throws when that is not a directory that can be read.
\<close>

fun scan_root :: "path \<Rightarrow> fs_node \<Rightarrow> job_queue \<Rightarrow> job_queue result" where
  "scan_root d (Directory es) q = scan_entries d es q"
| "scan_root d (Link_dir es) q = scan_entries d es q"
| "scan_root d _ q = Throw Filesystem_error"

text \<open>
  Lines 95 to 110 as a whole: the mode flag and the queue after discovery, for an
  input path that exists and resolves to the node \<open>root\<close>.
\<close>

definition discover :: "path \<Rightarrow> fs_node \<Rightarrow> (bool \<times> job_queue) result" where
  "discover inputPath root =
     (let singleFile = is_regular_file root in
      if singleFile then Return (singleFile, queue_push inputPath jobs_init)
      else case scan_root inputPath root jobs_init of
             Inl x \<Rightarrow> Throw x
           | Inr q \<Rightarrow> Return (singleFile, q))"

section \<open>Specification of the scan\<close>

definition pruned :: "path \<Rightarrow> string \<Rightarrow> fs_node \<Rightarrow> bool" where
  "pruned d n e \<longleftrightarrow> is_directory e \<and> filename (path_append d n) = OUTPUT_ROOT"

definition accepted :: "path \<Rightarrow> string \<Rightarrow> fs_node \<Rightarrow> bool" where
  "accepted d n e \<longleftrightarrow> is_regular_file e \<and> isVideoFile (path_append d n)"

fun candidates :: "path \<Rightarrow> entries \<Rightarrow> path list" where
  "candidates d [] = []"
| "candidates d ((n, e) # rest) =
     (if pruned d n e then candidates d rest
      else (if accepted d n e then [path_append d n] else []) @
           (case e of Directory es \<Rightarrow> candidates (path_append d n) es | _ \<Rightarrow> []) @
           candidates d rest)"

fun readable :: "path \<Rightarrow> entries \<Rightarrow> bool" where
  "readable d [] = True"
| "readable d ((n, e) # rest) =
     (if pruned d n e then readable d rest
      else (case e of
              Directory es \<Rightarrow> readable (path_append d n) es \<and> readable d rest
            | Unreadable \<Rightarrow> False
            | _ \<Rightarrow> readable d rest))"

section \<open>The loop implements the specification\<close>

lemma scan_entries_refines:
  "scan_entries d es q =
     (if readable d es then Return (q @ candidates d es) else Throw Filesystem_error)"
proof (induction d es q rule: scan_entries.induct)
  case (1 d q)
  show ?case by simp
next
  case (2 d n e rest q)
  then show ?case
    by (cases e) (auto simp: pruned_def accepted_def queue_push_def Let_def)
qed

lemmas scan_entries_simps = scan_entries.simps

declare scan_entries.simps [simp del]

lemma scan_entries_Return_iff:
  "scan_entries d es q = Return q' \<longleftrightarrow> readable d es \<and> q' = q @ candidates d es"
  by (auto simp: scan_entries_refines)

lemma scan_entries_Throw_iff:
  "scan_entries d es q = Throw x \<longleftrightarrow> \<not> readable d es \<and> x = Filesystem_error"
  by (auto simp: scan_entries_refines)

section \<open>Which paths are candidates\<close>

text \<open>
  \<open>descend d ns\<close> is the path of the entry reached from directory \<open>d\<close> by the names
  \<open>ns\<close>. \<open>found d es ns\<close> holds when following \<open>ns\<close> through the entries \<open>es\<close> of \<open>d\<close>
  passes only real directories that are not pruned and ends at an accepted entry.
\<close>

definition descend :: "path \<Rightarrow> string list \<Rightarrow> path" where
  "descend d ns = foldl path_append d ns"

fun found :: "path \<Rightarrow> entries \<Rightarrow> string list \<Rightarrow> bool" where
  "found d es [] = False"
| "found d es (n # ns) =
     list_ex (\<lambda>(m, e). m = n \<and> \<not> pruned d m e \<and>
        (if ns = [] then accepted d m e
         else case e of Directory es' \<Rightarrow> found (path_append d m) es' ns | _ \<Rightarrow> False)) es"

lemma descend_simps [simp]:
  "descend d [] = d" "descend d (n # ns) = descend (path_append d n) ns"
  by (simp_all add: descend_def)

lemma descend_append [simp]: "descend d (ns @ ms) = descend (descend d ns) ms"
  by (simp add: descend_def)

lemma found_Nil [simp]: "\<not> found d [] ns"
  by (cases ns) simp_all

lemma found_Cons:
  "found d ((n, e) # rest) ns \<longleftrightarrow>
     (\<not> pruned d n e \<and>
       ((ns = [n] \<and> accepted d n e) \<or>
        (\<exists>es' ms. e = Directory es' \<and> ns = n # ms \<and> ms \<noteq> [] \<and> found (path_append d n) es' ms)))
     \<or> found d rest ns"
  by (cases ns) (auto split: fs_node.splits)

lemma candidates_iff_found:
  "p \<in> set (candidates d es) \<longleftrightarrow> (\<exists>ns. found d es ns \<and> p = descend d ns)"
proof (induction d es rule: candidates.induct)
  case (1 d)
  show ?case by simp
next
  case (2 d n e rest)
  then show ?case by (cases e) (auto simp: found_Cons)
qed

lemma candidates_isVideoFile: "p \<in> set (candidates d es) \<Longrightarrow> isVideoFile p"
  by (induction d es rule: candidates.induct)
    (auto simp: accepted_def split: if_splits fs_node.splits)

lemma found_isVideoFile: "found d es ns \<Longrightarrow> isVideoFile (descend d ns)"
  using candidates_iff_found candidates_isVideoFile by blast

text \<open>The tree of the scenario in the specification, for closed examples.\<close>

definition example_tree :: entries where
  "example_tree =
     [(''a.mp4'', Regular),
      (''notes.txt'', Regular),
      (''sub'', Directory [(''b.mkv'', Regular), (''c.MP4'', Regular)]),
      (''compressed'', Directory [(''old.mp4'', Regular)])]"

lemma candidates_example:
  "candidates ''videos'' example_tree = [''videos/a.mp4'', ''videos/sub/b.mkv'']"
  by code_simp

lemma readable_example: "readable ''videos'' example_tree"
  by code_simp

section \<open>Main results\<close>

text \<open>
  Claim C11. The discovery phase implements its specification. For a regular file (or a
  link to one) the queue holds exactly the input path and the mode is single-file. For
  a directory the queue holds, in iteration order, the accepted entries outside pruned
  directories, and the mode is directory mode; if a directory that the iterator must
  open cannot be read, or the input is neither a file nor a directory, the phase ends
  with an uncaught \<^verbatim>\<open>filesystem_error\<close>.
\<close>

theorem discover_spec:
  "discover inputPath root =
     (case root of
        Regular \<Rightarrow> Return (True, [inputPath])
      | Link_file \<Rightarrow> Return (True, [inputPath])
      | Directory es \<Rightarrow>
          if readable inputPath es then Return (False, candidates inputPath es)
          else Throw Filesystem_error
      | Link_dir es \<Rightarrow>
          if readable inputPath es then Return (False, candidates inputPath es)
          else Throw Filesystem_error
      | Unreadable \<Rightarrow> Throw Filesystem_error
      | Other \<Rightarrow> Throw Filesystem_error)"
  by (cases root)
    (simp_all add: discover_def scan_entries_refines queue_push_def jobs_init_def)

text \<open>
  Claim C15. When the scan loop returns, the paths it has added to the queue are exactly
  the paths of regular video files that can be reached from the scanned directory
  through real directories none of which is named \<^verbatim>\<open>OUTPUT_ROOT\<close>; what was in the queue
  before stays in front, in order.
\<close>

theorem scan_entries_finds:
  assumes "scan_entries d es q = Return q'"
  shows "prefix q q' \<and> set (drop (length q) q') = {descend d ns |ns. found d es ns}"
proof -
  from assms have "q' = q @ candidates d es" by (simp add: scan_entries_Return_iff)
  then show ?thesis by (auto simp: candidates_iff_found)
qed

theorem scan_entries_finds_witness:
  "scan_entries ''videos'' example_tree [] = Return [''videos/a.mp4'', ''videos/sub/b.mkv''] \<and>
   set [''videos/a.mp4'', ''videos/sub/b.mkv''] =
     {descend ''videos'' ns |ns. found ''videos'' example_tree ns}"
proof -
  have e: "scan_entries ''videos'' example_tree [] = Return [''videos/a.mp4'', ''videos/sub/b.mkv'']"
    by (simp add: scan_entries_refines readable_example candidates_example)
  from scan_entries_finds [OF e] e show ?thesis by simp
qed

text \<open>
  Claim C21. The scan loop throws exactly when it has to open a directory that cannot be
  read and that is not below a pruned directory, and then the exception is
  \<^verbatim>\<open>filesystem_error\<close>; an unreadable directory named \<^verbatim>\<open>OUTPUT_ROOT\<close> is never opened.
\<close>

theorem scan_entries_throws:
  "(scan_entries d es q = Throw x \<longleftrightarrow> \<not> readable d es \<and> x = Filesystem_error) \<and>
   scan_entries d ((OUTPUT_ROOT, Unreadable) # es) q = scan_entries d es q"
proof -
  have "pruned d OUTPUT_ROOT Unreadable" by (simp add: pruned_def)
  then show ?thesis by (auto simp: scan_entries_refines)
qed

end
