(* ===== verification/Effects.thy ===== *)
theory Effects
  imports Fs_Path
begin

text \<open>
  What \<^verbatim>\<open>src/vid_compress.cpp\<close> does to the outside world, and what the outside world
  answers. The program writes messages to the two console streams, creates directories
  and runs shell commands; each such action is one \<open>event\<close>, named after the statement
  that causes it. A run of the program is observed as the list of its events in the
  order they happen.

  A message is recorded by its kind and its argument, not by its text: the texts are
  fixed strings around the argument and carry no decision of the program.

  Two of the actions return something the program depends on. \<^verbatim>\<open>create_directories\<close>
  returns or throws; \<^verbatim>\<open>system\<close> returns the exit status when the command has ended,
  which can take long. These answers are \<open>response\<close>s. The components that call out
  take the responses as input, so no assumption is made about HandBrakeCLI or the
  file system beyond the shape of their answers.
\<close>

datatype event =
    Err_usage string
  | Err_invalid_input
  | Out_found nat
  | Out_complete
  | Out_skipping path
  | Create_directories path
  | Out_processing path
  | System string
  | Err_failed path
  | Out_done path

datatype response = Dirs_created | Dirs_failed | Exit_status int

type_synonym trace = "event list"

text \<open>The commands a trace runs and the directories it creates, in order.\<close>

fun commands :: "trace \<Rightarrow> string list" where
  "commands [] = []"
| "commands (System c # t) = c # commands t"
| "commands (_ # t) = commands t"

fun created :: "trace \<Rightarrow> path list" where
  "created [] = []"
| "created (Create_directories d # t) = d # created t"
| "created (_ # t) = created t"

lemma commands_append [simp]: "commands (t @ u) = commands t @ commands u"
  by (induction t rule: commands.induct) simp_all

lemma created_append [simp]: "created (t @ u) = created t @ created u"
  by (induction t rule: created.induct) simp_all

end
