(* ===== verification/Compress_Job.thy ===== *)
theory Compress_Job
  imports Media_Filter Effects
begin

text \<open>
  \<^verbatim>\<open>compressOne\<close> of \<^verbatim>\<open>src/vid_compress.cpp\<close> (lines 32 to 66): the unit of work of a
  worker. The pure part is the computation of the output directory, the output file
  and the two command lines. The effectful part is a small state machine, because the
  function blocks twice in \<^verbatim>\<open>system\<close> while other workers run:

  \<^item> \<open>job_advance\<close> is what the function does by itself from a program point until it
    has issued its next event;
  \<^item> \<open>job_respond\<close> is the return of a call into the outside world.

  \<open>run_job\<close> runs the machine over a list of responses, and \<open>compressOne\<close> runs it from
  the start: the function as a whole. \<open>job_phase\<close> maps the program points to the states
  of the job state machine of the specification; \<open>phase_step\<close> is that machine.
\<close>

section \<open>Output paths and command lines\<close>

definition outDir :: "path \<Rightarrow> bool \<Rightarrow> path" where
  "outDir input singleFile =
     (if \<not> singleFile then path_append OUTPUT_ROOT (parent_path input) else OUTPUT_ROOT)"

text \<open>
  The local variable \<^verbatim>\<open>output\<close> of the source is \<open>output_file\<close> here (\<open>output\<close> is a
  keyword of the theory language).
\<close>

definition output_file :: "path \<Rightarrow> bool \<Rightarrow> path" where
  "output_file input singleFile =
     path_append (outDir input singleFile) (stem input @ ''_compressed.mp4'')"

abbreviation dq :: string where
  "dq \<equiv> [CHR 0x22]"

definition cmd :: "path \<Rightarrow> bool \<Rightarrow> int \<Rightarrow> string" where
  "cmd input singleFile quality =
     ''HandBrakeCLI '' @
     ''-i '' @ dq @ input @ dq @ '' '' @
     ''-o '' @ dq @ output_file input singleFile @ dq @ '' '' @
     ''--preset '' @ dq @ PRESET_NAME @ dq @ '' '' @
     ''-q '' @ to_string quality @ '' '' @
     ''--all-audio --all-subtitles --markers --optimize''"

definition touch_cmd :: "path \<Rightarrow> bool \<Rightarrow> string" where
  "touch_cmd input singleFile =
     ''touch -r '' @ dq @ input @ dq @ '' '' @ dq @ output_file input singleFile @ dq"

section \<open>The job as a state machine\<close>

datatype outcome = Skipped | Succeeded | Failed

datatype job_pc =
    J_start
  | J_mkdir
  | J_created
  | J_announced
  | J_encoding
  | J_returned int
  | J_touching
  | J_touched
  | J_finished outcome
  | J_thrown exn

text \<open>
  The steps the function takes by itself. From \<open>J_start\<close>: the test of line 33 and either
  the message of line 34 and the return, or the call of line 42. From \<open>J_created\<close>: the
  message of line 47. From \<open>J_announced\<close>: the call of line 57. From \<open>J_returned rc\<close>: the
  test of line 58 and either the message of line 59 and the return, or the call of line
  63. From \<open>J_touched\<close>: the message of line 65 and the return.
\<close>

fun job_advance :: "path \<Rightarrow> bool \<Rightarrow> int \<Rightarrow> job_pc \<Rightarrow> (trace \<times> job_pc) option" where
  "job_advance input singleFile quality J_start =
     Some (if alreadyCompressed input then ([Out_skipping input], J_finished Skipped)
           else ([Create_directories (outDir input singleFile)], J_mkdir))"
| "job_advance input singleFile quality J_created =
     Some ([Out_processing (filename input)], J_announced)"
| "job_advance input singleFile quality J_announced =
     Some ([System (cmd input singleFile quality)], J_encoding)"
| "job_advance input singleFile quality (J_returned rc) =
     Some (if rc \<noteq> 0 then ([Err_failed input], J_finished Failed)
           else ([System (touch_cmd input singleFile)], J_touching))"
| "job_advance input singleFile quality J_touched =
     Some ([Out_done (output_file input singleFile)], J_finished Succeeded)"
| "job_advance input singleFile quality _ = None"

text \<open>
  The returns of the three calls. \<^verbatim>\<open>create_directories\<close> returns or throws; the exit
  status of HandBrakeCLI is kept for the test of line 58; the exit status of
  \<^verbatim>\<open>touch\<close> is dropped, as line 63 drops it.
\<close>

fun job_respond :: "job_pc \<Rightarrow> response \<Rightarrow> job_pc option" where
  "job_respond J_mkdir Dirs_created = Some J_created"
| "job_respond J_mkdir Dirs_failed = Some (J_thrown Filesystem_error)"
| "job_respond J_encoding (Exit_status rc) = Some (J_returned rc)"
| "job_respond J_touching (Exit_status rc) = Some J_touched"
| "job_respond _ _ = None"

fun job_rank :: "job_pc \<Rightarrow> nat" where
  "job_rank J_start = 8"
| "job_rank J_mkdir = 7"
| "job_rank J_created = 6"
| "job_rank J_announced = 5"
| "job_rank J_encoding = 4"
| "job_rank (J_returned _) = 3"
| "job_rank J_touching = 2"
| "job_rank J_touched = 1"
| "job_rank (J_finished _) = 0"
| "job_rank (J_thrown _) = 0"

definition job_final :: "job_pc \<Rightarrow> bool" where
  "job_final pc \<longleftrightarrow> (case pc of J_finished _ \<Rightarrow> True | J_thrown _ \<Rightarrow> True | _ \<Rightarrow> False)"

definition job_waiting :: "job_pc \<Rightarrow> bool" where
  "job_waiting pc \<longleftrightarrow> pc = J_mkdir \<or> pc = J_encoding \<or> pc = J_touching"

lemma job_advance_rank:
  "job_advance input singleFile quality pc = Some (t, pc') \<Longrightarrow> job_rank pc' < job_rank pc"
  by (cases pc) (auto split: if_splits)

lemma job_respond_rank: "job_respond pc r = Some pc' \<Longrightarrow> job_rank pc' < job_rank pc"
  by (cases pc; cases r) auto

section \<open>The function as a whole\<close>

text \<open>
  \<open>run_job\<close> lets the function advance while it can and feeds it the next response
  when it waits. It stops at a final program point, or when the responses run out, or
  when a response does not answer the pending call.
\<close>

function run_job :: "path \<Rightarrow> bool \<Rightarrow> int \<Rightarrow> response list \<Rightarrow> job_pc \<Rightarrow> trace \<times> job_pc" where
  "run_job input singleFile quality rs pc =
     (case job_advance input singleFile quality pc of
        Some (t, pc') \<Rightarrow>
          (case run_job input singleFile quality rs pc' of (t', pc'') \<Rightarrow> (t @ t', pc''))
      | None \<Rightarrow>
          (case rs of
             [] \<Rightarrow> ([], pc)
           | r # rs' \<Rightarrow>
               (case job_respond pc r of
                  Some pc' \<Rightarrow> run_job input singleFile quality rs' pc'
                | None \<Rightarrow> ([], pc))))"
  by pat_completeness auto
termination
  by (relation "measure (\<lambda>(input, singleFile, quality, rs, pc). job_rank pc)")
    (auto dest: job_advance_rank job_respond_rank)

declare run_job.simps [simp del]

definition compressOne :: "path \<Rightarrow> bool \<Rightarrow> int \<Rightarrow> response list \<Rightarrow> trace \<times> job_pc" where
  "compressOne input singleFile quality rs = run_job input singleFile quality rs J_start"

section \<open>The job state machine of the specification\<close>

datatype phase = Pending | Encoding | Done outcome | Crashed


inductive phase_step :: "phase \<Rightarrow> phase \<Rightarrow> bool" where
  skip: "phase_step Pending (Done Skipped)"
| start: "phase_step Pending Encoding"
| succeed: "phase_step Encoding (Done Succeeded)"
| fail: "phase_step Encoding (Done Failed)"
| crash: "phase_step Encoding Crashed"

inductive_cases phase_step_PendingE: "phase_step Pending ph"
inductive_cases phase_step_EncodingE: "phase_step Encoding ph"
inductive_cases phase_step_DoneE: "phase_step (Done out) ph"
inductive_cases phase_step_CrashedE: "phase_step Crashed ph"

section \<open>Output paths\<close>

lemma output_name_relative [simp]: "\<not> is_absolute (stem p @ ''_compressed.mp4'')"
  using stem_no_sep [of p] by (cases "stem p") auto

lemma has_filename_OUTPUT_ROOT [simp]: "has_filename OUTPUT_ROOT"
  by (simp add: has_filename_iff OUTPUT_ROOT_def)

lemma output_file_has_suffix [simp]: "has_output_suffix (output_file input singleFile)"
proof -
  have "suffix (stem input @ OUTPUT_SUFFIX) (output_file input singleFile)"
    by (simp add: output_file_def OUTPUT_SUFFIX_def)
  then show ?thesis
    by (rule has_output_suffix_trans) simp
qed

lemma filename_output_file [simp]:
  "filename (output_file input singleFile) = stem input @ ''_compressed.mp4''"
  by (simp add: output_file_def)

lemma outDir_single: "outDir input True = OUTPUT_ROOT"
  by (simp add: outDir_def)

lemma outDir_relative:
  "\<not> is_absolute input \<Longrightarrow> outDir input False = OUTPUT_ROOT @ sep # parent_path input"
  by (simp add: outDir_def path_append_def parent_path_relative)

lemma outDir_absolute: "is_absolute input \<Longrightarrow> outDir input False = parent_path input"
  by (simp add: outDir_def parent_path_absolute)

lemma output_file_single:
  "output_file input True = OUTPUT_ROOT @ sep # stem input @ ''_compressed.mp4''"
  by (simp add: output_file_def outDir_single path_append_def)

lemma output_file_relative:
  assumes "\<not> is_absolute input"
  shows "output_file input False =
     OUTPUT_ROOT @ sep # (if parent_path input = [] then [] else parent_path input @ [sep]) @
       stem input @ ''_compressed.mp4''"
proof (cases "parent_path input = []")
  case True
  then show ?thesis
    using assms by (simp add: output_file_def outDir_relative path_append_def has_filename_iff)
next
  case False
  with assms have "has_filename (parent_path input)" by (rule parent_path_has_filename)
  then have "has_filename (OUTPUT_ROOT @ sep # parent_path input)"
    by (simp add: has_filename_iff)
  with False show ?thesis
    using assms by (simp add: output_file_def outDir_relative path_append_def)
qed

section \<open>Running the machine\<close>

lemma job_final_simps [simp]:
  "job_final (J_finished out)" "job_final (J_thrown e)"
  "\<not> job_final J_start" "\<not> job_final J_mkdir" "\<not> job_final J_created"
  "\<not> job_final J_announced" "\<not> job_final J_encoding" "\<not> job_final (J_returned rc)"
  "\<not> job_final J_touching" "\<not> job_final J_touched"
  by (simp_all add: job_final_def)

lemma job_final_no_step:
  "job_final pc \<Longrightarrow> job_advance input singleFile quality pc = None \<and> job_respond pc r = None"
  by (cases pc; cases r) (simp_all add: job_final_def)

lemma job_waiting_no_advance:
  "job_waiting pc \<Longrightarrow> job_advance input singleFile quality pc = None"
  by (auto simp: job_waiting_def)

lemma job_pc_cases:
  "job_final pc \<or> job_waiting pc \<or> job_advance input singleFile quality pc \<noteq> None"
  by (cases pc) (simp_all add: job_waiting_def)

lemma run_job_advance:
  "job_advance input singleFile quality pc = Some (t, pc') \<Longrightarrow>
   run_job input singleFile quality rs pc =
     (t @ fst (run_job input singleFile quality rs pc'), snd (run_job input singleFile quality rs pc'))"
  by (subst run_job.simps) (simp add: split_beta)

lemma run_job_respond:
  "job_advance input singleFile quality pc = None \<Longrightarrow> job_respond pc r = Some pc' \<Longrightarrow>
   run_job input singleFile quality (r # rs) pc = run_job input singleFile quality rs pc'"
  by (subst run_job.simps) simp

lemma run_job_Nil:
  "job_advance input singleFile quality pc = None \<Longrightarrow>
   run_job input singleFile quality [] pc = ([], pc)"
  by (subst run_job.simps) simp

lemma run_job_final [simp]:
  "job_final pc \<Longrightarrow> run_job input singleFile quality rs pc = ([], pc)"
  by (subst run_job.simps) (auto simp: job_final_no_step split: list.splits)

lemmas run_job_eval = run_job_advance run_job_respond run_job_Nil

lemma compressOne_skipped:
  "alreadyCompressed input \<Longrightarrow>
   compressOne input singleFile quality rs = ([Out_skipping input], J_finished Skipped)"
  by (simp add: compressOne_def run_job_eval)

lemma compressOne_thrown:
  "\<not> alreadyCompressed input \<Longrightarrow>
   compressOne input singleFile quality (Dirs_failed # rs) =
     ([Create_directories (outDir input singleFile)], J_thrown Filesystem_error)"
  by (simp add: compressOne_def run_job_eval)

lemma compressOne_failed:
  "\<not> alreadyCompressed input \<Longrightarrow> rc \<noteq> 0 \<Longrightarrow>
   compressOne input singleFile quality (Dirs_created # Exit_status rc # rs) =
     ([Create_directories (outDir input singleFile), Out_processing (filename input),
       System (cmd input singleFile quality), Err_failed input], J_finished Failed)"
  by (simp add: compressOne_def run_job_eval)

lemma compressOne_succeeded:
  "\<not> alreadyCompressed input \<Longrightarrow>
   compressOne input singleFile quality (Dirs_created # Exit_status 0 # Exit_status rc # rs) =
     ([Create_directories (outDir input singleFile), Out_processing (filename input),
       System (cmd input singleFile quality), System (touch_cmd input singleFile),
       Out_done (output_file input singleFile)], J_finished Succeeded)"
  by (simp add: compressOne_def run_job_eval)

section \<open>Refinement of the job state machine\<close>






section \<open>Main results\<close>

text \<open>
  Claim C9. \<^verbatim>\<open>compressOne\<close> on every branch. A job that \<^verbatim>\<open>alreadyCompressed\<close> accepts
  prints the skip message and does nothing else. Otherwise the output directory is
  created first; if that throws, nothing more happens and the exception leaves the
  function. If it succeeds the file name is printed and HandBrakeCLI is run; a non-zero
  exit status gives the failure message and no \<^verbatim>\<open>touch\<close>; a zero exit status gives the
  \<^verbatim>\<open>touch\<close> command and the completion message, whatever \<^verbatim>\<open>touch\<close> returns.
\<close>

theorem compressOne_behaviour:
  "compressOne input singleFile quality (Dirs_created # Exit_status rc # Exit_status rc' # rs) =
     (if alreadyCompressed input then ([Out_skipping input], J_finished Skipped)
      else ([Create_directories (outDir input singleFile), Out_processing (filename input),
             System (cmd input singleFile quality)] @
            (if rc \<noteq> 0 then [Err_failed input]
             else [System (touch_cmd input singleFile), Out_done (output_file input singleFile)]),
            J_finished (if rc \<noteq> 0 then Failed else Succeeded))) \<and>
   compressOne input singleFile quality (Dirs_failed # rs) =
     (if alreadyCompressed input then ([Out_skipping input], J_finished Skipped)
      else ([Create_directories (outDir input singleFile)], J_thrown Filesystem_error))"
  by (simp add: compressOne_skipped compressOne_thrown compressOne_failed compressOne_succeeded)


text \<open>
  Claim C19. Idempotence of the output naming: every output file that \<^verbatim>\<open>compressOne\<close>
  names is itself rejected by \<^verbatim>\<open>alreadyCompressed\<close>, so a job whose input is an output of
  an earlier run is skipped without any effect on the file system.
\<close>

theorem output_is_skipped:
  "alreadyCompressed (output_file input singleFile) \<and>
   compressOne (output_file input singleFile) singleFile' quality rs =
     ([Out_skipping (output_file input singleFile)], J_finished Skipped)"
proof -
  have "alreadyCompressed (output_file input singleFile)"
    by (simp add: alreadyCompressed_iff)
  then show ?thesis by (simp add: compressOne_skipped)
qed

text \<open>
  Claim C18. Where the output goes. In single-file mode the output file is directly in
  \<^verbatim>\<open>OUTPUT_ROOT\<close>. In directory mode with a relative input path it is under
  \<^verbatim>\<open>OUTPUT_ROOT\<close> followed by the whole parent path of the input. In directory mode with
  an absolute input path \<^verbatim>\<open>operator/=\<close> replaces \<^verbatim>\<open>OUTPUT_ROOT\<close>, and the output file is in
  the parent directory of the input itself. The file name is always the stem of the
  input followed by \<open>_compressed.mp4\<close>.
\<close>

theorem output_file_layout:
  "output_file input singleFile =
     (if singleFile then OUTPUT_ROOT @ ''/'' @ stem input @ ''_compressed.mp4''
      else if is_absolute input
        then path_append (parent_path input) (stem input @ ''_compressed.mp4'')
      else OUTPUT_ROOT @ ''/'' @
        (if parent_path input = [] then [] else parent_path input @ ''/'') @
        stem input @ ''_compressed.mp4'')"
  by (simp add: output_file_single output_file_relative)
    (simp add: output_file_def outDir_absolute)


end
