(* ===== verification/Worker_Pool.thy ===== *)
theory Worker_Pool
  imports Job_Queue Compress_Job
begin

text \<open>
  The concurrent part of \<^verbatim>\<open>src/vid_compress.cpp\<close>: the function \<^verbatim>\<open>worker\<close> (lines 68 to
  79), the mutex \<^verbatim>\<open>queueMutex\<close> and the queue \<^verbatim>\<open>jobs\<close> it protects (lines 18 and 19), and
  the part of \<^verbatim>\<open>main\<close> that starts the threads, joins them and prints the last message
  (lines 114 to 121).

  The state of the run is the record \<open>pool\<close>. Every thread has a program counter; one
  step of the model is one statement of one thread, or one answer of the outside world
  to a thread that waits for it. Which thread moves next is not decided by the model:
  a step is taken under a \<open>label\<close>, and every property is proved for all sequences of
  labels. The step function returns \<open>None\<close> when the labelled thread cannot move (it
  waits for the mutex, for a thread it joins, or for an answer, or it has ended).

  What the language leaves undefined is a value of the model: \<^verbatim>\<open>front\<close> or \<^verbatim>\<open>pop\<close> on an
  empty queue, and any access to the queue or release of the mutex by a thread that
  does not hold the mutex, put \<open>Undefined_behaviour\<close> in the field \<open>fault\<close>. An exception
  that leaves \<^verbatim>\<open>worker\<close> ends the process (\<^verbatim>\<open>std::terminate\<close>) and is the fault
  \<open>Uncaught\<close>. After a fault nothing moves.

  Two fields are not in the program: \<open>dequeued\<close> lists the jobs in the order they were
  popped and \<open>results\<close> lists each finished job with its outcome. No step reads them;
  they are there to state what the pool has done.
\<close>

section \<open>State\<close>

datatype worker_pc =
    W_loop
  | W_locked
  | W_nonempty
  | W_front path
  | W_popped path
  | W_job path job_pc
  | W_exit

datatype main_pc = M_spawn nat | M_join nat | M_complete | M_exit int

datatype fault = Uncaught exn | Undefined_behaviour

record pool =
  jobs :: job_queue
  queueMutex :: "nat option"
  threads :: "worker_pc list"
  main_at :: main_pc
  events :: trace
  fault :: "fault option"
  dequeued :: "path list"
  results :: "(path \<times> outcome) list"

datatype label = Main_act | Worker_act nat | Respond nat response

text \<open>The state after line 112: the queue is filled, no thread has been started.\<close>

definition pool_init :: "job_queue \<Rightarrow> pool" where
  "pool_init q =
     \<lparr>jobs = q, queueMutex = None, threads = [], main_at = M_spawn 0, events = [],
      fault = None, dequeued = [], results = []\<rparr>"

definition set_thread :: "nat \<Rightarrow> worker_pc \<Rightarrow> pool \<Rightarrow> pool" where
  "set_thread t pc s = s\<lparr>threads := (threads s)[t := pc]\<rparr>"

text \<open>
  A statement inside the block of lines 71 to 76 has its effect when the thread holds
  the mutex, and is undefined otherwise.
\<close>

definition critical :: "nat \<Rightarrow> pool \<Rightarrow> pool \<Rightarrow> pool" where
  "critical t s s' = (if queueMutex s = Some t then s' else s\<lparr>fault := Some Undefined_behaviour\<rparr>)"

section \<open>Steps\<close>

text \<open>
  One statement of thread \<open>t\<close> running \<^verbatim>\<open>worker(singleFile, quality)\<close>. \<open>W_loop\<close> is the
  construction of the \<^verbatim>\<open>lock_guard\<close> (line 72), which waits while another thread holds
  the mutex. \<open>W_locked\<close> is the test of line 73; when the queue is empty the function
  returns and the guard releases the mutex. \<open>W_nonempty\<close> is line 74, \<open>W_front\<close> is line 75,
  \<open>W_popped\<close> is the end of the block (line 76), which releases the mutex. \<open>W_job\<close> is the
  call of line 77: \<^verbatim>\<open>compressOne\<close> advances by its own steps; when it has returned the
  loop starts again, and when it has thrown the process ends.
\<close>

definition worker_step :: "bool \<Rightarrow> int \<Rightarrow> nat \<Rightarrow> pool \<Rightarrow> pool option" where
  "worker_step singleFile quality t s =
     (case threads s ! t of
        W_loop \<Rightarrow>
          if queueMutex s = None then Some (set_thread t W_locked (s\<lparr>queueMutex := Some t\<rparr>))
          else None
      | W_locked \<Rightarrow>
          Some (critical t s
            (if queue_empty (jobs s) then set_thread t W_exit (s\<lparr>queueMutex := None\<rparr>)
             else set_thread t W_nonempty s))
      | W_nonempty \<Rightarrow>
          Some (critical t s
            (case queue_front (jobs s) of
               None \<Rightarrow> s\<lparr>fault := Some Undefined_behaviour\<rparr>
             | Some job \<Rightarrow> set_thread t (W_front job) s))
      | W_front job \<Rightarrow>
          Some (critical t s
            (case queue_pop (jobs s) of
               None \<Rightarrow> s\<lparr>fault := Some Undefined_behaviour\<rparr>
             | Some q \<Rightarrow> set_thread t (W_popped job) (s\<lparr>jobs := q, dequeued := dequeued s @ [job]\<rparr>)))
      | W_popped job \<Rightarrow>
          Some (critical t s (set_thread t (W_job job J_start) (s\<lparr>queueMutex := None\<rparr>)))
      | W_job job pc \<Rightarrow>
          (case job_advance job singleFile quality pc of
             Some (tr, pc') \<Rightarrow> Some (set_thread t (W_job job pc') (s\<lparr>events := events s @ tr\<rparr>))
           | None \<Rightarrow>
               (case pc of
                  J_finished oc \<Rightarrow> Some (set_thread t W_loop (s\<lparr>results := results s @ [(job, oc)]\<rparr>))
                | J_thrown e \<Rightarrow> Some (s\<lparr>fault := Some (Uncaught e)\<rparr>)
                | _ \<Rightarrow> None))
      | W_exit \<Rightarrow> None)"

text \<open>
  The answer \<open>r\<close> of the outside world to the call thread \<open>t\<close> waits in.
\<close>

definition respond_step :: "nat \<Rightarrow> response \<Rightarrow> pool \<Rightarrow> pool option" where
  "respond_step t r s =
     (case threads s ! t of
        W_job job pc \<Rightarrow>
          (case job_respond pc r of
             Some pc' \<Rightarrow> Some (set_thread t (W_job job pc') s)
           | None \<Rightarrow> None)
      | _ \<Rightarrow> None)"

text \<open>
  One statement of \<^verbatim>\<open>main\<close>. \<open>M_spawn i\<close> is the loop of lines 115 and 116 before its
  test with counter \<open>i\<close>; \<open>M_join i\<close> is the loop of lines 118 and 119 before the thread
  at index \<open>i\<close>, which it waits for; \<open>M_complete\<close> is line 121; \<open>M_exit c\<close> is the process
  ended with exit code \<open>c\<close>.
\<close>

definition main_step :: "pool \<Rightarrow> pool option" where
  "main_step s =
     (case main_at s of
        M_spawn i \<Rightarrow>
          Some (if i < MAX_GPU_JOBS
                then s\<lparr>threads := threads s @ [W_loop], main_at := M_spawn (Suc i)\<rparr>
                else s\<lparr>main_at := M_join 0\<rparr>)
      | M_join i \<Rightarrow>
          if i < length (threads s)
          then (if threads s ! i = W_exit then Some (s\<lparr>main_at := M_join (Suc i)\<rparr>) else None)
          else Some (s\<lparr>main_at := M_complete\<rparr>)
      | M_complete \<Rightarrow> Some (s\<lparr>events := events s @ [Out_complete], main_at := M_exit 0\<rparr>)
      | M_exit c \<Rightarrow> None)"

definition pool_step :: "bool \<Rightarrow> int \<Rightarrow> label \<Rightarrow> pool \<Rightarrow> pool option" where
  "pool_step singleFile quality l s =
     (if fault s \<noteq> None then None
      else case l of
        Main_act \<Rightarrow> main_step s
      | Worker_act t \<Rightarrow> if t < length (threads s) then worker_step singleFile quality t s else None
      | Respond t r \<Rightarrow> if t < length (threads s) then respond_step t r s else None)"

text \<open>A schedule is a list of labels; it runs while each of its labels can move.\<close>

fun exec :: "bool \<Rightarrow> int \<Rightarrow> label list \<Rightarrow> pool \<Rightarrow> pool option" where
  "exec singleFile quality [] s = Some s"
| "exec singleFile quality (l # ls) s =
     (case pool_step singleFile quality l s of
        None \<Rightarrow> None
      | Some s' \<Rightarrow> exec singleFile quality ls s')"

inductive reachable :: "bool \<Rightarrow> int \<Rightarrow> job_queue \<Rightarrow> pool \<Rightarrow> bool"
  for singleFile :: bool and quality :: int and q :: job_queue where
  init: "reachable singleFile quality q (pool_init q)"
| step: "reachable singleFile quality q s \<Longrightarrow> pool_step singleFile quality l s = Some s' \<Longrightarrow>
         reachable singleFile quality q s'"

lemmas pool_step_defs [step_defs] =
  pool_step_def main_step_def worker_step_def respond_step_def set_thread_def critical_def

section \<open>The steps as a relation\<close>

text \<open>
  The same steps as an inductive relation with one rule for each statement and each
  outcome of its test, so that properties of all runs are proved by rule induction.
  \<open>in_critical\<close> holds at the control points between the construction of the
  \<^verbatim>\<open>lock_guard\<close> and the end of its block. The rule \<open>race\<close> is the step of a thread that
  is at such a point without holding the mutex; \<open>front_empty\<close> and \<open>pop_empty\<close> are the
  calls on an empty queue. \<open>pool_step_iff\<close> states that the relation and the step function
  are the same.
\<close>

fun in_critical :: "worker_pc \<Rightarrow> bool" where
  "in_critical W_locked = True"
| "in_critical W_nonempty = True"
| "in_critical (W_front _) = True"
| "in_critical (W_popped _) = True"
| "in_critical _ = False"

abbreviation ub :: "pool \<Rightarrow> pool" where
  "ub s \<equiv> s\<lparr>fault := Some Undefined_behaviour\<rparr>"

inductive pool_trans :: "bool \<Rightarrow> int \<Rightarrow> pool \<Rightarrow> label \<Rightarrow> pool \<Rightarrow> bool"
  for singleFile :: bool and quality :: int where
  spawn: "fault s = None \<Longrightarrow> main_at s = M_spawn i \<Longrightarrow> i < MAX_GPU_JOBS \<Longrightarrow>
    pool_trans singleFile quality s Main_act
      (s\<lparr>threads := threads s @ [W_loop], main_at := M_spawn (Suc i)\<rparr>)"
| spawned: "fault s = None \<Longrightarrow> main_at s = M_spawn i \<Longrightarrow> \<not> i < MAX_GPU_JOBS \<Longrightarrow>
    pool_trans singleFile quality s Main_act (s\<lparr>main_at := M_join 0\<rparr>)"
| join: "fault s = None \<Longrightarrow> main_at s = M_join i \<Longrightarrow> i < length (threads s) \<Longrightarrow>
    threads s ! i = W_exit \<Longrightarrow>
    pool_trans singleFile quality s Main_act (s\<lparr>main_at := M_join (Suc i)\<rparr>)"
| joined: "fault s = None \<Longrightarrow> main_at s = M_join i \<Longrightarrow> \<not> i < length (threads s) \<Longrightarrow>
    pool_trans singleFile quality s Main_act (s\<lparr>main_at := M_complete\<rparr>)"
| complete: "fault s = None \<Longrightarrow> main_at s = M_complete \<Longrightarrow>
    pool_trans singleFile quality s Main_act
      (s\<lparr>events := events s @ [Out_complete], main_at := M_exit 0\<rparr>)"
| lock: "fault s = None \<Longrightarrow> t < length (threads s) \<Longrightarrow> threads s ! t = W_loop \<Longrightarrow>
    queueMutex s = None \<Longrightarrow>
    pool_trans singleFile quality s (Worker_act t)
      (set_thread t W_locked (s\<lparr>queueMutex := Some t\<rparr>))"
| race: "fault s = None \<Longrightarrow> t < length (threads s) \<Longrightarrow> in_critical (threads s ! t) \<Longrightarrow>
    queueMutex s \<noteq> Some t \<Longrightarrow>
    pool_trans singleFile quality s (Worker_act t) (ub s)"
| leave: "fault s = None \<Longrightarrow> t < length (threads s) \<Longrightarrow> threads s ! t = W_locked \<Longrightarrow>
    queueMutex s = Some t \<Longrightarrow> queue_empty (jobs s) \<Longrightarrow>
    pool_trans singleFile quality s (Worker_act t)
      (set_thread t W_exit (s\<lparr>queueMutex := None\<rparr>))"
| test: "fault s = None \<Longrightarrow> t < length (threads s) \<Longrightarrow> threads s ! t = W_locked \<Longrightarrow>
    queueMutex s = Some t \<Longrightarrow> \<not> queue_empty (jobs s) \<Longrightarrow>
    pool_trans singleFile quality s (Worker_act t) (set_thread t W_nonempty s)"
| front: "fault s = None \<Longrightarrow> t < length (threads s) \<Longrightarrow> threads s ! t = W_nonempty \<Longrightarrow>
    queueMutex s = Some t \<Longrightarrow> queue_front (jobs s) = Some job \<Longrightarrow>
    pool_trans singleFile quality s (Worker_act t) (set_thread t (W_front job) s)"
| front_empty: "fault s = None \<Longrightarrow> t < length (threads s) \<Longrightarrow> threads s ! t = W_nonempty \<Longrightarrow>
    queueMutex s = Some t \<Longrightarrow> queue_front (jobs s) = None \<Longrightarrow>
    pool_trans singleFile quality s (Worker_act t) (ub s)"
| pop: "fault s = None \<Longrightarrow> t < length (threads s) \<Longrightarrow> threads s ! t = W_front job \<Longrightarrow>
    queueMutex s = Some t \<Longrightarrow> queue_pop (jobs s) = Some q \<Longrightarrow>
    pool_trans singleFile quality s (Worker_act t)
      (set_thread t (W_popped job) (s\<lparr>jobs := q, dequeued := dequeued s @ [job]\<rparr>))"
| pop_empty: "fault s = None \<Longrightarrow> t < length (threads s) \<Longrightarrow> threads s ! t = W_front job \<Longrightarrow>
    queueMutex s = Some t \<Longrightarrow> queue_pop (jobs s) = None \<Longrightarrow>
    pool_trans singleFile quality s (Worker_act t) (ub s)"
| unlock: "fault s = None \<Longrightarrow> t < length (threads s) \<Longrightarrow> threads s ! t = W_popped job \<Longrightarrow>
    queueMutex s = Some t \<Longrightarrow>
    pool_trans singleFile quality s (Worker_act t)
      (set_thread t (W_job job J_start) (s\<lparr>queueMutex := None\<rparr>))"
| advance: "fault s = None \<Longrightarrow> t < length (threads s) \<Longrightarrow> threads s ! t = W_job job pc \<Longrightarrow>
    job_advance job singleFile quality pc = Some (tr, pc') \<Longrightarrow>
    pool_trans singleFile quality s (Worker_act t)
      (set_thread t (W_job job pc') (s\<lparr>events := events s @ tr\<rparr>))"
| return: "fault s = None \<Longrightarrow> t < length (threads s) \<Longrightarrow>
    threads s ! t = W_job job (J_finished oc) \<Longrightarrow>
    pool_trans singleFile quality s (Worker_act t)
      (set_thread t W_loop (s\<lparr>results := results s @ [(job, oc)]\<rparr>))"
| throw: "fault s = None \<Longrightarrow> t < length (threads s) \<Longrightarrow>
    threads s ! t = W_job job (J_thrown e) \<Longrightarrow>
    pool_trans singleFile quality s (Worker_act t) (s\<lparr>fault := Some (Uncaught e)\<rparr>)"
| respond: "fault s = None \<Longrightarrow> t < length (threads s) \<Longrightarrow> threads s ! t = W_job job pc \<Longrightarrow>
    job_respond pc r = Some pc' \<Longrightarrow>
    pool_trans singleFile quality s (Respond t r) (set_thread t (W_job job pc') s)"

lemma pool_trans_step:
  "pool_trans singleFile quality s l s' \<Longrightarrow> pool_step singleFile quality l s = Some s'"
proof (induction rule: pool_trans.induct)
  case (race s t)
  then show ?case
    by (cases "threads s ! t") (simp_all add: pool_step_def worker_step_def critical_def)
qed (simp_all add: pool_step_def main_step_def worker_step_def respond_step_def critical_def)

lemma main_step_trans:
  "fault s = None \<Longrightarrow> main_step s = Some s' \<Longrightarrow> pool_trans singleFile quality s Main_act s'"
  by (cases "main_at s")
    (auto simp: main_step_def split: if_splits intro: pool_trans.intros)

lemma respond_step_trans:
  "fault s = None \<Longrightarrow> t < length (threads s) \<Longrightarrow> respond_step t r s = Some s' \<Longrightarrow>
   pool_trans singleFile quality s (Respond t r) s'"
  by (cases "threads s ! t")
    (auto simp: respond_step_def split: option.splits intro: pool_trans.intros)

lemma critical_trans:
  assumes "fault s = None" "t < length (threads s)" "in_critical (threads s ! t)"
    and "queueMutex s = Some t \<Longrightarrow> pool_trans singleFile quality s (Worker_act t) s'"
  shows "pool_trans singleFile quality s (Worker_act t) (critical t s s')"
  using assms by (auto simp: critical_def intro: pool_trans.race)

lemma worker_step_trans:
  assumes "fault s = None" "t < length (threads s)" "worker_step singleFile quality t s = Some s'"
  shows "pool_trans singleFile quality s (Worker_act t) s'"
proof (cases "threads s ! t")
  case (W_job job pc)
  with assms show ?thesis
    by (cases pc)
      (auto simp: worker_step_def split: option.splits if_splits intro: pool_trans.intros)
qed (use assms in \<open>auto simp: worker_step_def split: option.splits if_splits
      intro!: critical_trans intro: pool_trans.intros\<close>)

lemma pool_step_trans:
  assumes "pool_step singleFile quality l s = Some s'"
  shows "pool_trans singleFile quality s l s'"
proof -
  from assms have f: "fault s = None" by (auto simp: pool_step_def split: if_splits)
  with assms show ?thesis
    by (cases l)
      (auto simp: pool_step_def split: if_splits
        intro: main_step_trans worker_step_trans respond_step_trans)
qed

lemma pool_step_iff:
  "pool_step singleFile quality l s = Some s' \<longleftrightarrow> pool_trans singleFile quality s l s'"
  using pool_step_trans pool_trans_step by blast

end
