(* ===== verification/Pool_Invariants.thy ===== *)
theory Pool_Invariants
  imports Worker_Pool
begin

text \<open>
  Invariants of the worker pool of \<^verbatim>\<open>src/vid_compress.cpp\<close> (lines 68 to 79 and 114 to
  121), each proved to be kept by every rule of \<open>pool_trans\<close>, the measure that every
  step decreases, and the lemmas on which steps are possible.

  \<^item> \<open>mutex_inv\<close>: the threads inside the guarded block are exactly the holder of the mutex.
  \<^item> \<open>queue_inv\<close>: a thread that has passed the test of line 73 sees a non-empty queue, and
    a thread that has read \<^verbatim>\<open>front\<close> still has that job at the front.
  \<^item> \<open>main_inv\<close>: the number of threads started and joined at each control point of \<^verbatim>\<open>main\<close>.
  \<^item> \<open>conserved\<close>: popped jobs followed by queued jobs are the initial queue; popped jobs
    are the jobs in work and the finished jobs.
  \<^item> \<open>exit_inv\<close>: once a thread has ended the queue is empty.
  \<^item> \<open>defined\<close>: no undefined behaviour has happened.
  \<^item> \<open>outcomes_inv\<close>: the control point of \<^verbatim>\<open>compressOne\<close> in each thread, each recorded
    outcome and a recorded exception agree with what \<^verbatim>\<open>alreadyCompressed\<close> says of the job.
\<close>

section \<open>Invariants\<close>

fun held :: "worker_pc \<Rightarrow> path list" where
  "held (W_popped job) = [job]"
| "held (W_job job _) = [job]"
| "held _ = []"

definition in_flight :: "pool \<Rightarrow> path multiset" where
  "in_flight s = mset (concat (map held (threads s)))"

definition mutex_inv :: "pool \<Rightarrow> bool" where
  "mutex_inv s \<longleftrightarrow>
     (\<forall>t<length (threads s). in_critical (threads s ! t) \<longleftrightarrow> queueMutex s = Some t) \<and>
     (\<forall>t. queueMutex s = Some t \<longrightarrow> t < length (threads s))"

definition queue_inv :: "pool \<Rightarrow> bool" where
  "queue_inv s \<longleftrightarrow>
     (\<forall>t<length (threads s).
        (threads s ! t = W_nonempty \<longrightarrow> \<not> queue_empty (jobs s)) \<and>
        (\<forall>job. threads s ! t = W_front job \<longrightarrow> queue_front (jobs s) = Some job))"

fun main_ok :: "main_pc \<Rightarrow> worker_pc list \<Rightarrow> bool" where
  "main_ok (M_spawn i) ws \<longleftrightarrow> length ws = i \<and> i \<le> MAX_GPU_JOBS"
| "main_ok (M_join i) ws \<longleftrightarrow>
     length ws = MAX_GPU_JOBS \<and> i \<le> MAX_GPU_JOBS \<and> (\<forall>k<i. ws ! k = W_exit)"
| "main_ok M_complete ws \<longleftrightarrow> length ws = MAX_GPU_JOBS \<and> (\<forall>k<MAX_GPU_JOBS. ws ! k = W_exit)"
| "main_ok (M_exit c) ws \<longleftrightarrow>
     c = 0 \<and> length ws = MAX_GPU_JOBS \<and> (\<forall>k<MAX_GPU_JOBS. ws ! k = W_exit)"

definition main_inv :: "pool \<Rightarrow> bool" where
  "main_inv s \<longleftrightarrow> main_ok (main_at s) (threads s)"

lemma set_thread_simps [simp]:
  "threads (set_thread t pc s) = (threads s)[t := pc]"
  "jobs (set_thread t pc s) = jobs s"
  "queueMutex (set_thread t pc s) = queueMutex s"
  "main_at (set_thread t pc s) = main_at s"
  "events (set_thread t pc s) = events s"
  "fault (set_thread t pc s) = fault s"
  "dequeued (set_thread t pc s) = dequeued s"
  "results (set_thread t pc s) = results s"
  by (simp_all add: set_thread_def)

lemma nth_update_exit: "ws ! t \<noteq> W_exit \<Longrightarrow> ws ! k = W_exit \<Longrightarrow> ws[t := pc] ! k = W_exit"
  by (cases "k = t") auto

lemma main_ok_update:
  "main_ok m ws \<Longrightarrow> ws ! t \<noteq> W_exit \<Longrightarrow> main_ok m (ws[t := pc])"
  by (cases m) (auto simp: nth_update_exit)

lemma main_ok_length: "main_ok m ws \<Longrightarrow> length ws \<le> MAX_GPU_JOBS"
  by (cases m) auto

lemma mutex_inv_trans:
  "pool_trans singleFile quality s l s' \<Longrightarrow> mutex_inv s \<Longrightarrow> mutex_inv s'"
  by (induction rule: pool_trans.induct)
    (auto simp: mutex_inv_def nth_list_update nth_append less_Suc_eq)

lemma main_inv_trans:
  "pool_trans singleFile quality s l s' \<Longrightarrow> main_inv s \<Longrightarrow> main_inv s'"
  by (induction rule: pool_trans.induct)
    (auto simp: main_inv_def main_ok_update less_Suc_eq nth_append)

lemma queue_inv_trans:
  "pool_trans singleFile quality s l s' \<Longrightarrow> mutex_inv s \<Longrightarrow> queue_inv s \<Longrightarrow> queue_inv s'"
  by (induction rule: pool_trans.induct)
    (auto simp: queue_inv_def mutex_inv_def nth_list_update nth_append less_Suc_eq
      queue_front_None_iff)

definition flight :: "worker_pc list \<Rightarrow> path multiset" where
  "flight ws = mset (concat (map held ws))"

lemma flight_simps [simp]:
  "flight [] = {#}"
  "flight (w # ws) = mset (held w) + flight ws"
  "flight (ws @ vs) = flight ws + flight vs"
  by (simp_all add: flight_def)

lemma flight_update:
  "t < length ws \<Longrightarrow> flight (ws[t := pc]) + mset (held (ws ! t)) = flight ws + mset (held pc)"
  by (induction ws arbitrary: t) (auto simp: nth_Cons split: nat.splits)

lemma flight_keep: "t < length ws \<Longrightarrow> held pc = held (ws ! t) \<Longrightarrow> flight (ws[t := pc]) = flight ws"
  using flight_update [of t ws pc] by simp

lemma flight_gain: "t < length ws \<Longrightarrow> held (ws ! t) = [] \<Longrightarrow> flight (ws[t := pc]) = flight ws + mset (held pc)"
  using flight_update [of t ws pc] by simp

lemma flight_lose: "t < length ws \<Longrightarrow> held pc = [] \<Longrightarrow> flight (ws[t := pc]) + mset (held (ws ! t)) = flight ws"
  using flight_update [of t ws pc] by simp

definition conserved :: "job_queue \<Rightarrow> pool \<Rightarrow> bool" where
  "conserved q s \<longleftrightarrow>
     dequeued s @ jobs s = q \<and>
     mset (dequeued s) = flight (threads s) + mset (map fst (results s))"

definition exit_inv :: "pool \<Rightarrow> bool" where
  "exit_inv s \<longleftrightarrow> (W_exit \<in> set (threads s) \<longrightarrow> queue_empty (jobs s))"

definition defined :: "pool \<Rightarrow> bool" where
  "defined s \<longleftrightarrow> fault s \<noteq> Some Undefined_behaviour"

fun job_pc_ok :: "path \<Rightarrow> job_pc \<Rightarrow> bool" where
  "job_pc_ok job J_start \<longleftrightarrow> True"
| "job_pc_ok job (J_finished oc) \<longleftrightarrow> (oc = Skipped \<longleftrightarrow> alreadyCompressed job)"
| "job_pc_ok job (J_thrown e) \<longleftrightarrow> e = Filesystem_error \<and> \<not> alreadyCompressed job"
| "job_pc_ok job _ \<longleftrightarrow> \<not> alreadyCompressed job"

fun worker_ok :: "worker_pc \<Rightarrow> bool" where
  "worker_ok (W_job job pc) \<longleftrightarrow> job_pc_ok job pc"
| "worker_ok _ \<longleftrightarrow> True"

definition outcomes_inv :: "pool \<Rightarrow> bool" where
  "outcomes_inv s \<longleftrightarrow>
     list_all worker_ok (threads s) \<and>
     list_all (\<lambda>(job, oc). oc = Skipped \<longleftrightarrow> alreadyCompressed job) (results s) \<and>
     (case fault s of
        Some (Uncaught e) \<Rightarrow>
          e = Filesystem_error \<and>
          (\<exists>job \<in> set (dequeued s). \<not> alreadyCompressed job \<and> W_job job (J_thrown e) \<in> set (threads s))
      | _ \<Rightarrow> True)"

lemma job_advance_ok:
  "job_advance job singleFile quality pc = Some (tr, pc') \<Longrightarrow> job_pc_ok job pc \<Longrightarrow> job_pc_ok job pc'"
  by (cases pc) (auto split: if_splits)

lemma job_respond_ok: "job_respond pc r = Some pc' \<Longrightarrow> job_pc_ok job pc \<Longrightarrow> job_pc_ok job pc'"
  by (cases pc; cases r) auto

lemma list_all_update: "list_all P ws \<Longrightarrow> P w \<Longrightarrow> list_all P (ws[t := w])"
  by (induction ws arbitrary: t) (auto split: nat.splits)

lemma list_all_nth: "list_all P ws \<Longrightarrow> t < length ws \<Longrightarrow> P (ws ! t)"
  by (simp add: list_all_length)

lemma conserved_trans:
  "pool_trans singleFile quality s l s' \<Longrightarrow> queue_inv s \<Longrightarrow> conserved q s \<Longrightarrow> conserved q s'"
proof (induction rule: pool_trans.induct)
  case (pop s t job q')
  then have "jobs s = job # q'"
    by (cases "jobs s") (auto simp: queue_inv_def)
  with pop show ?case by (simp add: conserved_def flight_gain)
next
  case (return s t job oc)
  with flight_lose [of t "threads s" W_loop] show ?case by (simp add: conserved_def)
qed (simp_all add: conserved_def flight_keep)

lemma exit_inv_trans:
  "pool_trans singleFile quality s l s' \<Longrightarrow> exit_inv s \<Longrightarrow> exit_inv s'"
  by (induction rule: pool_trans.induct)
    (auto simp: exit_inv_def queue_empty_def dest!: subsetD [OF set_update_subset_insert])

lemma queue_front_SomeD: "queue_front q = Some p \<Longrightarrow> \<exists>r. queue_pop q = Some r \<and> q = p # r"
  by (cases q) simp_all

lemma defined_trans:
  "pool_trans singleFile quality s l s' \<Longrightarrow> mutex_inv s \<Longrightarrow> queue_inv s \<Longrightarrow> defined s'"
proof (induction rule: pool_trans.induct)
  case (pop_empty s t job)
  then have "queue_front (jobs s) = Some job" by (simp add: queue_inv_def)
  with pop_empty show ?case by (auto dest: queue_front_SomeD)
qed (auto simp: defined_def mutex_inv_def queue_inv_def queue_front_None_iff)

lemma flight_member: "t < length ws \<Longrightarrow> job \<in> set (held (ws ! t)) \<Longrightarrow> job \<in># flight ws"
  by (induction ws arbitrary: t) (auto simp: nth_Cons split: nat.splits)

lemma conserved_held:
  assumes "conserved q s" "t < length (threads s)" "job \<in> set (held (threads s ! t))"
  shows "job \<in> set (dequeued s)"
proof -
  from assms have "job \<in># mset (dequeued s)"
    by (simp add: conserved_def flight_member)
  then show ?thesis by simp
qed

lemma worker_ok_at:
  "list_all worker_ok ws \<Longrightarrow> t < length ws \<Longrightarrow> ws ! t = W_job job pc \<Longrightarrow> job_pc_ok job pc"
  using list_all_nth [of worker_ok ws t] by simp

lemma outcomes_inv_trans:
  "pool_trans singleFile quality s l s' \<Longrightarrow> conserved q s \<Longrightarrow> outcomes_inv s \<Longrightarrow> outcomes_inv s'"
proof (induction rule: pool_trans.induct)
  case (throw s t job e)
  then have "job \<in> set (dequeued s)" "job_pc_ok job (J_thrown e)"
    using conserved_held [of q s t job] by (auto simp: outcomes_inv_def dest: worker_ok_at)
  with throw nth_mem [of t "threads s"] show ?case by (auto simp: outcomes_inv_def)
next
  case (advance s t job pc tr pc')
  then have "job_pc_ok job pc'"
    by (auto simp: outcomes_inv_def dest: worker_ok_at job_advance_ok)
  with advance show ?case by (simp add: outcomes_inv_def list_all_update)
next
  case (respond s t job pc r pc')
  then have "job_pc_ok job pc'"
    by (auto simp: outcomes_inv_def dest: worker_ok_at job_respond_ok)
  with respond show ?case by (simp add: outcomes_inv_def list_all_update)
next
  case (return s t job oc)
  then have "job_pc_ok job (J_finished oc)"
    by (auto simp: outcomes_inv_def dest: worker_ok_at)
  with return show ?case by (simp add: outcomes_inv_def list_all_update)
qed (simp_all add: outcomes_inv_def list_all_update)

definition pool_inv :: "job_queue \<Rightarrow> pool \<Rightarrow> bool" where
  "pool_inv q s \<longleftrightarrow>
     mutex_inv s \<and> queue_inv s \<and> main_inv s \<and> conserved q s \<and> exit_inv s \<and> defined s \<and>
     outcomes_inv s"

lemma pool_inv_init: "pool_inv q (pool_init q)"
  by (simp add: pool_inv_def pool_init_def mutex_inv_def queue_inv_def main_inv_def
      conserved_def exit_inv_def defined_def outcomes_inv_def)

lemma pool_inv_trans:
  "pool_trans singleFile quality s l s' \<Longrightarrow> pool_inv q s \<Longrightarrow> pool_inv q s'"
  unfolding pool_inv_def
  by (blast intro: mutex_inv_trans queue_inv_trans main_inv_trans conserved_trans
      exit_inv_trans defined_trans outcomes_inv_trans)

lemma reachable_inv: "reachable singleFile quality q s \<Longrightarrow> pool_inv q s"
  by (induction rule: reachable.induct) (auto intro: pool_inv_init pool_inv_trans simp: pool_step_iff)

lemma exec_append:
  "exec singleFile quality (ls @ ms) s =
     (case exec singleFile quality ls s of None \<Rightarrow> None | Some s' \<Rightarrow> exec singleFile quality ms s')"
  by (induction ls arbitrary: s) (simp_all split: option.splits)

lemma reachable_exec:
  "reachable singleFile quality q s \<Longrightarrow> exec singleFile quality ls s = Some s' \<Longrightarrow>
   reachable singleFile quality q s'"
  by (induction ls arbitrary: s) (auto split: option.splits intro: reachable.step)

lemma reachable_iff_exec:
  "reachable singleFile quality q s \<longleftrightarrow> (\<exists>ls. exec singleFile quality ls (pool_init q) = Some s)"
proof
  show "reachable singleFile quality q s \<Longrightarrow> \<exists>ls. exec singleFile quality ls (pool_init q) = Some s"
  proof (induction rule: reachable.induct)
    case init
    have "exec singleFile quality [] (pool_init q) = Some (pool_init q)" by simp
    then show ?case by blast
  next
    case (step s l s')
    then obtain ls where "exec singleFile quality ls (pool_init q) = Some s" by blast
    with step have "exec singleFile quality (ls @ [l]) (pool_init q) = Some s'"
      by (simp add: exec_append)
    then show ?case by blast
  qed
qed (auto intro: reachable_exec reachable.init)

section \<open>Termination\<close>

fun worker_rank :: "worker_pc \<Rightarrow> nat" where
  "worker_rank W_exit = 0"
| "worker_rank (W_front _) = 1"
| "worker_rank W_nonempty = 2"
| "worker_rank W_locked = 3"
| "worker_rank W_loop = 4"
| "worker_rank (W_job _ pc) = 5 + job_rank pc"
| "worker_rank (W_popped _) = 14"

definition threads_rank :: "worker_pc list \<Rightarrow> nat" where
  "threads_rank ws = sum_list (map worker_rank ws)"

fun main_rank :: "main_pc \<Rightarrow> nat \<Rightarrow> nat" where
  "main_rank (M_exit _) n = 0"
| "main_rank M_complete n = 1"
| "main_rank (M_join i) n = 2 + (n - i)"
| "main_rank (M_spawn i) n = 3 + n + 6 * (MAX_GPU_JOBS - i)"

definition pool_measure :: "pool \<Rightarrow> nat" where
  "pool_measure s =
     (if fault s = None then 1 else 0) + main_rank (main_at s) (length (threads s)) +
     14 * length (jobs s) + threads_rank (threads s)"

lemma threads_rank_simps [simp]:
  "threads_rank [] = 0"
  "threads_rank (w # ws) = worker_rank w + threads_rank ws"
  "threads_rank (ws @ vs) = threads_rank ws + threads_rank vs"
  by (simp_all add: threads_rank_def)

lemma threads_rank_update:
  "t < length ws \<Longrightarrow>
   threads_rank (ws[t := w]) + worker_rank (ws ! t) = threads_rank ws + worker_rank w"
  by (induction ws arbitrary: t) (auto simp: nth_Cons split: nat.splits)

lemma threads_rank_less:
  "t < length ws \<Longrightarrow> worker_rank w < worker_rank (ws ! t) \<Longrightarrow>
   threads_rank (ws[t := w]) < threads_rank ws"
  using threads_rank_update [of t ws w] by simp

lemma pool_measure_trans:
  "pool_trans singleFile quality s l s' \<Longrightarrow> pool_measure s' < pool_measure s"
proof (induction rule: pool_trans.induct)
  case (pop s t job q)
  then have "length (jobs s) = Suc (length q)" by (cases "jobs s") simp_all
  with pop threads_rank_update [of t "threads s" "W_popped job"] show ?case
    by (simp add: pool_measure_def)
qed (auto simp: pool_measure_def intro!: threads_rank_less
      dest: job_advance_rank job_respond_rank)

lemma exec_measure:
  "exec singleFile quality ls s = Some s' \<Longrightarrow> length ls + pool_measure s' \<le> pool_measure s"
proof (induction ls arbitrary: s)
  case (Cons l ls)
  then obtain s1 where l: "pool_step singleFile quality l s = Some s1"
    and ls: "exec singleFile quality ls s1 = Some s'"
    by (auto split: option.splits)
  from l have "pool_measure s1 < pool_measure s" by (simp add: pool_step_iff pool_measure_trans)
  with Cons.IH [OF ls] show ?case by simp
qed simp

lemma pool_measure_init: "pool_measure (pool_init q) = 4 + 6 * MAX_GPU_JOBS + 14 * length q"
  by (simp add: pool_measure_def pool_init_def)

section \<open>Progress\<close>

text \<open>
  A label is \<open>benign\<close> when it is not a failure of \<^verbatim>\<open>create_directories\<close>. Whatever can
  move can move by a benign label.
\<close>

fun benign :: "label \<Rightarrow> bool" where
  "benign (Respond t Dirs_failed) \<longleftrightarrow> False"
| "benign _ \<longleftrightarrow> True"

lemma benign_Respond [simp]: "benign (Respond t r) \<longleftrightarrow> r \<noteq> Dirs_failed"
  by (cases r) simp_all

lemma critical_enabled:
  "in_critical (threads s ! t) \<Longrightarrow> worker_step singleFile quality t s \<noteq> None"
  by (cases "threads s ! t") (simp_all add: worker_step_def)

lemma job_enabled:
  "threads s ! t = W_job job pc \<Longrightarrow>
   worker_step singleFile quality t s \<noteq> None \<or> respond_step t Dirs_created s \<noteq> None \<or>
   respond_step t (Exit_status 0) s \<noteq> None"
  by (cases pc) (simp_all add: worker_step_def respond_step_def)

lemma worker_enabled:
  assumes "mutex_inv s" "fault s = None" "t < length (threads s)" "threads s ! t \<noteq> W_exit"
  shows "\<exists>l. benign l \<and> pool_step singleFile quality l s \<noteq> None"
proof (cases "threads s ! t")
  case W_loop
  show ?thesis
  proof (cases "queueMutex s")
    case None
    with W_loop assms have "pool_step singleFile quality (Worker_act t) s \<noteq> None"
      by (simp add: pool_step_def worker_step_def)
    then show ?thesis by (intro exI [of _ "Worker_act t"]) simp
  next
    case (Some u)
    with assms have "u < length (threads s)" "in_critical (threads s ! u)"
      by (auto simp: mutex_inv_def)
    with assms have "pool_step singleFile quality (Worker_act u) s \<noteq> None"
      by (simp add: pool_step_def critical_enabled)
    then show ?thesis by (intro exI [of _ "Worker_act u"]) simp
  qed
next
  case (W_job job pc)
  from job_enabled [OF this, of singleFile quality] assms
  consider "pool_step singleFile quality (Worker_act t) s \<noteq> None"
    | "pool_step singleFile quality (Respond t Dirs_created) s \<noteq> None"
    | "pool_step singleFile quality (Respond t (Exit_status 0)) s \<noteq> None"
    by (auto simp: pool_step_def)
  then show ?thesis
  proof cases
    case 1 then show ?thesis by (intro exI [of _ "Worker_act t"]) simp
  next
    case 2 then show ?thesis by (intro exI [of _ "Respond t Dirs_created"]) simp
  next
    case 3 then show ?thesis by (intro exI [of _ "Respond t (Exit_status 0)"]) simp
  qed
next
  case W_exit
  with assms show ?thesis by simp
qed (use assms critical_enabled [of s t singleFile quality] in
      \<open>auto simp: pool_step_def intro!: exI [of _ "Worker_act t"]\<close>)

lemma main_enabled:
  assumes "mutex_inv s" "fault s = None" "\<forall>c. main_at s \<noteq> M_exit c"
  shows "\<exists>l. benign l \<and> pool_step singleFile quality l s \<noteq> None"
proof (cases "main_step s")
  case None
  with assms obtain i where "main_at s = M_join i" "i < length (threads s)" "threads s ! i \<noteq> W_exit"
    by (cases "main_at s") (auto simp: main_step_def split: if_splits)
  with assms show ?thesis by (blast intro: worker_enabled)
next
  case (Some s')
  with assms have "pool_step singleFile quality Main_act s \<noteq> None" by (simp add: pool_step_def)
  then show ?thesis by (intro exI [of _ Main_act]) simp
qed

lemma all_exit: "length ws = n \<Longrightarrow> \<forall>k<n. ws ! k = W_exit \<Longrightarrow> ws = replicate n W_exit"
  by (simp add: list_eq_iff_nth_eq)

lemma flight_replicate_exit [simp]: "flight (replicate n W_exit) = {#}"
  by (induction n) simp_all

lemma pool_inv_exit:
  assumes "pool_inv q s" "main_at s = M_exit c"
  shows "c = 0" "threads s = replicate MAX_GPU_JOBS W_exit" "fault s = None"
    "queueMutex s = None" "jobs s = []" "dequeued s = q" "mset (map fst (results s)) = mset q"
proof -
  from assms show c: "c = 0" and ws: "threads s = replicate MAX_GPU_JOBS W_exit"
    by (simp_all add: pool_inv_def main_inv_def all_exit)
  from assms ws show "fault s = None"
    by (cases "fault s") (auto simp: pool_inv_def defined_def outcomes_inv_def split: fault.splits)
  from assms ws show "queueMutex s = None"
    by (cases "queueMutex s") (auto simp: pool_inv_def mutex_inv_def)
  from assms ws show e: "jobs s = []"
    by (simp add: pool_inv_def exit_inv_def queue_empty_def)
  with assms show d: "dequeued s = q" by (simp add: pool_inv_def conserved_def)
  with assms ws show "mset (map fst (results s)) = mset q"
    by (simp add: pool_inv_def conserved_def)
qed

end
