(* ===== verification/Pool_Correctness.thy ===== *)
theory Pool_Correctness
  imports Pool_Invariants
begin

text \<open>
  The properties of the worker pool of \<^verbatim>\<open>src/vid_compress.cpp\<close> that hold for every
  interleaving of \<^verbatim>\<open>main\<close> and the threads and for every answer of the outside world:
  absence of undefined behaviour, mutual exclusion, conservation of the jobs, the
  state after a completed run, termination, absence of deadlock and the bound on the
  number of encoders. The run of the scenario of the specification (a directory with
  two videos, the second of which fails to encode) is evaluated step by step and is
  the input of the closed instances.
\<close>

section \<open>A run of the scenario\<close>

definition example_jobs :: job_queue where
  "example_jobs = [''videos/a.mp4'', ''videos/sub/b.mkv'']"

definition example_schedule :: "label list" where
  "example_schedule =
     [Main_act, Main_act, Main_act,
      Worker_act 0, Worker_act 0, Worker_act 0, Worker_act 0, Worker_act 0, Worker_act 0,
      Respond 0 Dirs_created, Worker_act 0, Worker_act 0,
      Worker_act 1, Worker_act 1, Worker_act 1]"

definition example_rest :: "label list" where
  "example_rest =
     [Respond 0 (Exit_status 0), Worker_act 0, Respond 0 (Exit_status 0), Worker_act 0,
      Worker_act 0,
      Worker_act 1, Worker_act 1, Worker_act 1, Respond 1 Dirs_created, Worker_act 1,
      Worker_act 1, Respond 1 (Exit_status 1), Worker_act 1, Worker_act 1,
      Worker_act 1, Worker_act 1, Worker_act 0, Worker_act 0,
      Main_act, Main_act, Main_act, Main_act]"

definition example_mid :: pool where
  "example_mid = the (exec False 5 example_schedule (pool_init example_jobs))"

definition example_final :: pool where
  "example_final = the (exec False 5 example_rest example_mid)"

lemma example_mid_exec: "exec False 5 example_schedule (pool_init example_jobs) = Some example_mid"
proof -
  have "exec False 5 example_schedule (pool_init example_jobs) \<noteq> None" by code_simp
  then show ?thesis by (auto simp: example_mid_def)
qed

lemma example_final_exec: "exec False 5 example_rest example_mid = Some example_final"
proof -
  have "exec False 5 example_rest example_mid \<noteq> None" by code_simp
  then show ?thesis by (auto simp: example_final_def)
qed

lemma example_mid_reachable: "reachable False 5 example_jobs example_mid"
  using reachable_exec [OF reachable.init example_mid_exec] .

lemma example_final_reachable: "reachable False 5 example_jobs example_final"
  using reachable_exec [OF example_mid_reachable example_final_exec] .

lemma example_mid_state:
  "threads example_mid = [W_job ''videos/a.mp4'' J_encoding, W_front ''videos/sub/b.mkv'']"
  "queueMutex example_mid = Some 1"
  "jobs example_mid = [''videos/sub/b.mkv'']"
  "dequeued example_mid = [''videos/a.mp4'']"
  "main_at example_mid = M_join 0"
  "fault example_mid = None"
  "results example_mid = []"
  by code_simp+

lemma example_final_state:
  "main_at example_final = M_exit 0"
  "results example_final = [(''videos/a.mp4'', Succeeded), (''videos/sub/b.mkv'', Failed)]"
  "fault example_final = None"
  by code_simp+

lemma example_final_events:
  "events example_final =
     [Create_directories ''compressed/videos'', Out_processing ''a.mp4'',
      System (cmd ''videos/a.mp4'' False 5),
      System (touch_cmd ''videos/a.mp4'' False), Out_done ''compressed/videos/a_compressed.mp4'',
      Create_directories ''compressed/videos/sub'', Out_processing ''b.mkv'',
      System (cmd ''videos/sub/b.mkv'' False 5), Err_failed ''videos/sub/b.mkv'', Out_complete]"
  by code_simp

section \<open>Main results\<close>

definition encoding :: "worker_pc \<Rightarrow> bool" where
  "encoding w \<longleftrightarrow> (case w of W_job _ J_encoding \<Rightarrow> True | _ \<Rightarrow> False)"

lemmas reachable_invs = reachable_inv [unfolded pool_inv_def]

text \<open>
  Claim C1. No run of the pool has undefined behaviour: whatever the interleaving of the
  threads and whatever the outside world answers, \<^verbatim>\<open>front\<close> and \<^verbatim>\<open>pop\<close> are never called
  on an empty queue, and the queue is never touched and the mutex never released by a
  thread that does not hold the mutex.
\<close>

theorem pool_no_undefined_behaviour:
  assumes "reachable singleFile quality q s"
  shows "fault s \<noteq> Some Undefined_behaviour"
  using reachable_invs [OF assms] by (simp add: defined_def)

theorem pool_no_undefined_behaviour_witness:
  "fault example_mid \<noteq> Some Undefined_behaviour"
  using pool_no_undefined_behaviour [OF example_mid_reachable] by simp

text \<open>
  Claim C3. Mutual exclusion: in every reachable state at most one thread is between the
  construction of its \<^verbatim>\<open>lock_guard\<close> and the end of the guarded block, and that thread
  is the one recorded as the holder of \<^verbatim>\<open>queueMutex\<close>.
\<close>

theorem pool_mutual_exclusion:
  assumes "reachable singleFile quality q s"
    and "t < length (threads s)" "in_critical (threads s ! t)"
    and "u < length (threads s)" "in_critical (threads s ! u)"
  shows "t = u \<and> queueMutex s = Some t"
  using reachable_invs [OF assms(1)] assms(2-) by (auto simp: mutex_inv_def)

theorem pool_mutual_exclusion_witness:
  "in_critical (threads example_mid ! 1) \<and> queueMutex example_mid = Some 1"
  using pool_mutual_exclusion [OF example_mid_reachable, of 1 1]
  by (simp add: example_mid_state)

text \<open>
  Claim C2. Every job is handed to exactly one worker, in queue order. In every reachable
  state the jobs popped so far followed by the jobs still queued are the initial queue,
  and the popped jobs are, with multiplicity, the jobs some thread is working on
  together with the jobs that have finished. No job is lost, none is taken twice, and
  the queue never grows.
\<close>

theorem pool_jobs_conserved:
  assumes "reachable singleFile quality q s"
  shows "dequeued s @ jobs s = q \<and>
         mset (dequeued s) = flight (threads s) + mset (map fst (results s))"
  using reachable_invs [OF assms] by (simp add: conserved_def)

theorem pool_jobs_conserved_witness:
  "dequeued example_mid @ jobs example_mid = example_jobs \<and>
   mset (dequeued example_mid) = {#''videos/a.mp4''#}"
  using pool_jobs_conserved [OF example_mid_reachable]
  by (simp add: example_mid_state flight_def)

text \<open>
  Claim C4. What a completed run has done. When \<^verbatim>\<open>main\<close> has returned, the exit code is 0,
  no fault has happened, every thread has ended, the mutex is free, the queue is empty,
  the jobs were popped in the order of the initial queue, every job of the initial
  queue has finished exactly once, and a job finished as skipped exactly when
  \<^verbatim>\<open>alreadyCompressed\<close> accepts it. The exit code does not depend on the outcomes.
\<close>

theorem pool_completed:
  assumes "reachable singleFile quality q s" and "main_at s = M_exit c"
  shows "c = 0 \<and> fault s = None \<and> threads s = replicate MAX_GPU_JOBS W_exit \<and>
         queueMutex s = None \<and> jobs s = [] \<and> dequeued s = q \<and>
         mset (map fst (results s)) = mset q \<and>
         list_all (\<lambda>(job, oc). oc = Skipped \<longleftrightarrow> alreadyCompressed job) (results s)"
  using pool_inv_exit [OF reachable_inv [OF assms(1)] assms(2)] reachable_invs [OF assms(1)]
  by (simp add: outcomes_inv_def)

theorem pool_completed_witness:
  "main_at example_final = M_exit 0 \<and>
   results example_final = [(''videos/a.mp4'', Succeeded), (''videos/sub/b.mkv'', Failed)] \<and>
   jobs example_final = [] \<and> dequeued example_final = example_jobs"
  using pool_completed [OF example_final_reachable, of 0] by (simp add: example_final_state)

text \<open>
  Claim C5. Every run of the pool ends. Each step of any thread and each answer of the
  outside world decreases \<open>pool_measure\<close>, so a schedule that runs from the initial
  state of a queue of \<open>n\<close> jobs has at most \<open>4 + 6 * MAX_GPU_JOBS + 14 * n\<close> steps.
\<close>

theorem pool_terminates:
  assumes "exec singleFile quality ls (pool_init q) = Some s"
  shows "length ls + pool_measure s \<le> 4 + 6 * MAX_GPU_JOBS + 14 * length q"
  using exec_measure [OF assms] by (simp add: pool_measure_init)

theorem pool_terminates_witness:
  "length (example_schedule @ example_rest) + pool_measure example_final \<le> 44"
proof -
  have "exec False 5 (example_schedule @ example_rest) (pool_init example_jobs) = Some example_final"
    by (simp add: exec_append example_mid_exec example_final_exec)
  from pool_terminates [OF this] show ?thesis by (simp add: example_jobs_def MAX_GPU_JOBS_def)
qed

text \<open>
  Claim C6. The pool never deadlocks. A reachable state in which nothing can move, neither
  \<^verbatim>\<open>main\<close> nor a thread nor a call that is waited for, is a state where \<^verbatim>\<open>main\<close> has returned
  or the process has been ended by an uncaught exception; in every other reachable
  state some label has a step.
\<close>

theorem pool_progress:
  assumes "reachable singleFile quality q s"
  shows "(\<forall>l. pool_step singleFile quality l s = None) \<longleftrightarrow>
         fault s \<noteq> None \<or> (\<exists>c. main_at s = M_exit c)"
proof
  assume stuck: "\<forall>l. pool_step singleFile quality l s = None"
  from reachable_invs [OF assms] have m: "mutex_inv s" by simp
  show "fault s \<noteq> None \<or> (\<exists>c. main_at s = M_exit c)"
  proof (rule ccontr)
    assume "\<not> (fault s \<noteq> None \<or> (\<exists>c. main_at s = M_exit c))"
    then have "fault s = None" "\<forall>c. main_at s \<noteq> M_exit c" by auto
    from main_enabled [OF m this, of singleFile quality] stuck show False by auto
  qed
next
  assume "fault s \<noteq> None \<or> (\<exists>c. main_at s = M_exit c)"
  then show "\<forall>l. pool_step singleFile quality l s = None"
  proof
    assume "\<exists>c. main_at s = M_exit c"
    then obtain c where c: "main_at s = M_exit c" ..
    from pool_inv_exit(2) [OF reachable_inv [OF assms] c] c
    show ?thesis
      by (auto simp: pool_step_def main_step_def worker_step_def respond_step_def
          split: label.splits)
  qed (simp add: pool_step_def)
qed

theorem pool_progress_witness:
  "(\<forall>l. pool_step False 5 l example_final = None) \<and>
   (\<exists>l. pool_step False 5 l example_mid \<noteq> None)"
  using pool_progress [OF example_final_reachable] pool_progress [OF example_mid_reachable]
  by (simp add: example_final_state example_mid_state)

text \<open>
  Claim C13. Bounded concurrency: a run never has more than \<^verbatim>\<open>MAX_GPU_JOBS\<close> worker threads,
  so at most \<^verbatim>\<open>MAX_GPU_JOBS\<close> HandBrakeCLI processes run at the same time.
\<close>

theorem pool_bounded_concurrency:
  assumes "reachable singleFile quality q s"
  shows "length (filter encoding (threads s)) \<le> MAX_GPU_JOBS \<and>
         length (threads s) \<le> MAX_GPU_JOBS"
proof -
  from reachable_invs [OF assms] have "length (threads s) \<le> MAX_GPU_JOBS"
    by (auto simp: main_inv_def dest: main_ok_length)
  moreover have "length (filter encoding (threads s)) \<le> length (threads s)" by simp
  ultimately show ?thesis by linarith
qed

theorem pool_bounded_concurrency_witness:
  "length (filter encoding (threads example_mid)) = 1 \<and> 1 \<le> MAX_GPU_JOBS"
  using pool_bounded_concurrency [OF example_mid_reachable]
  by (simp add: example_mid_state encoding_def)

end
