(* ===== verification/Main_Program.thy ===== *)
theory Main_Program
  imports Scanner Pool_Correctness
begin

text \<open>
  The function \<^verbatim>\<open>main\<close> of \<^verbatim>\<open>src/vid_compress.cpp\<close> (lines 81 to 122) as a whole.

  \<open>startup\<close> is the sequential part, lines 82 to 112: the check of the argument count,
  the conversion of the quality, the existence check, the discovery and the message
  with the number of jobs. Its inputs are the argument vector (\<^verbatim>\<open>argc\<close> is its length)
  and what the file system has at the input path: \<open>None\<close> when \<^verbatim>\<open>fs::exists\<close> is false,
  otherwise the tree below the path. Its result is a \<open>start\<close>: \<^verbatim>\<open>main\<close> has returned, or
  an exception has left \<^verbatim>\<open>main\<close> and ended the process, or the pool is to be started with
  the mode, the quality and the queue. \<open>run_main\<close> continues with the worker pool under
  a schedule and gives the events of the whole run and how the process ends.

  With an empty argument vector line 83 writes \<^verbatim>\<open>argv[0]\<close>, a null pointer, to the
  stream, which the language leaves undefined; this is the result \<open>Undefined\<close>.
\<close>

section \<open>The sequential part\<close>

datatype start =
    Exit int trace
  | Abort exn trace
  | Undefined
  | Dispatch bool int job_queue trace

definition startup :: "string list \<Rightarrow> fs_node option \<Rightarrow> start" where
  "startup argv root =
     (if length argv < 2 then
        (case argv of [] \<Rightarrow> Undefined | prog # _ \<Rightarrow> Exit 1 [Err_usage prog])
      else
        let inputPath = argv ! 1 in
        case (if length argv \<ge> 3 then stoi (argv ! 2) else Return DEFAULT_QUALITY) of
          Throw e \<Rightarrow> Abort e []
        | Return quality \<Rightarrow>
            (case root of
               None \<Rightarrow> Exit 1 [Err_invalid_input]
             | Some node \<Rightarrow>
                 (case discover inputPath node of
                    Throw e \<Rightarrow> Abort e []
                  | Return (singleFile, q) \<Rightarrow>
                      Dispatch singleFile quality q [Out_found (queue_size q)])))"

section \<open>The whole run\<close>

datatype ending = Returned int | Terminated exn | Undefined_run | Unfinished

definition pool_ending :: "pool \<Rightarrow> ending" where
  "pool_ending s =
     (case fault s of
        Some (Uncaught e) \<Rightarrow> Terminated e
      | Some Undefined_behaviour \<Rightarrow> Undefined_run
      | None \<Rightarrow> (case main_at s of M_exit c \<Rightarrow> Returned c | _ \<Rightarrow> Unfinished))"

definition run_main :: "string list \<Rightarrow> fs_node option \<Rightarrow> label list \<Rightarrow> (trace \<times> ending) option" where
  "run_main argv root ls =
     (case startup argv root of
        Exit c tr \<Rightarrow> Some (tr, Returned c)
      | Abort e tr \<Rightarrow> Some (tr, Terminated e)
      | Undefined \<Rightarrow> Some ([], Undefined_run)
      | Dispatch singleFile quality q tr \<Rightarrow>
          (case exec singleFile quality ls (pool_init q) of
             None \<Rightarrow> None
           | Some s \<Rightarrow> Some (tr @ events s, pool_ending s)))"

section \<open>The branches of the sequential part\<close>

definition quality_of :: "string list \<Rightarrow> int result" where
  "quality_of argv = (if length argv \<ge> 3 then stoi (argv ! 2) else Return DEFAULT_QUALITY)"

lemma startup_usage: "length argv < 2 \<Longrightarrow> argv \<noteq> [] \<Longrightarrow> startup argv root = Exit 1 [Err_usage (hd argv)]"
  by (cases argv) (simp_all add: startup_def)

lemma startup_bad_quality:
  "\<not> length argv < 2 \<Longrightarrow> quality_of argv = Throw e \<Longrightarrow> startup argv root = Abort e []"
  by (simp add: startup_def quality_of_def)

lemma startup_missing:
  "\<not> length argv < 2 \<Longrightarrow> quality_of argv = Return quality \<Longrightarrow>
   startup argv None = Exit 1 [Err_invalid_input]"
  by (simp add: startup_def quality_of_def)

lemma startup_scan:
  "\<not> length argv < 2 \<Longrightarrow> quality_of argv = Return quality \<Longrightarrow>
   startup argv (Some node) =
     (case discover (argv ! 1) node of
        Throw e \<Rightarrow> Abort e []
      | Return (singleFile, q) \<Rightarrow> Dispatch singleFile quality q [Out_found (queue_size q)])"
  by (simp add: startup_def quality_of_def)

lemmas startup_branches = startup_usage startup_bad_quality startup_missing startup_scan

lemma startup_Exit_iff:
  "startup argv root = Exit c tr \<longleftrightarrow>
     c = 1 \<and>
     (length argv = 1 \<and> tr = [Err_usage (hd argv)] \<or>
      2 \<le> length argv \<and> root = None \<and> tr = [Err_invalid_input] \<and>
      (\<exists>quality. quality_of argv = Return quality))"
proof (cases "length argv < 2")
  case True
  then show ?thesis by (cases argv) (auto simp: startup_def)
next
  case False
  then show ?thesis
    by (cases "quality_of argv"; cases root)
      (auto simp: startup_branches split: sum.splits prod.splits)
qed

lemma startup_Undefined_iff: "startup argv root = Undefined \<longleftrightarrow> argv = []"
proof (cases "length argv < 2")
  case True
  then show ?thesis by (cases argv) (auto simp: startup_def)
next
  case False
  then show ?thesis
    by (cases "quality_of argv"; cases root)
      (auto simp: startup_branches split: sum.splits prod.splits)
qed

lemma startup_Dispatch_iff:
  "startup argv root = Dispatch singleFile quality q tr \<longleftrightarrow>
     2 \<le> length argv \<and> quality_of argv = Return quality \<and>
     (\<exists>node. root = Some node \<and> discover (argv ! 1) node = Return (singleFile, q)) \<and>
     tr = [Out_found (queue_size q)]"
proof (cases "length argv < 2")
  case True
  then show ?thesis by (cases argv) (auto simp: startup_def)
next
  case False
  then show ?thesis
    by (cases "quality_of argv"; cases root)
      (auto simp: startup_branches split: sum.splits prod.splits)
qed

section \<open>How a run ends\<close>

lemma discover_Throw: "discover inputPath node = Throw e \<Longrightarrow> e = Filesystem_error"
  by (cases node) (auto simp: discover_def scan_entries_Throw_iff split: sum.splits)

lemma pool_ending_Returned: "pool_ending s = Returned c \<longleftrightarrow> fault s = None \<and> main_at s = M_exit c"
  by (auto simp: pool_ending_def split: option.splits fault.splits main_pc.splits)

lemma pool_ending_Terminated: "pool_ending s = Terminated e \<longleftrightarrow> fault s = Some (Uncaught e)"
  by (auto simp: pool_ending_def split: option.splits fault.splits main_pc.splits)

lemma pool_ending_Undefined: "pool_ending s = Undefined_run \<longleftrightarrow> fault s = Some Undefined_behaviour"
  by (auto simp: pool_ending_def split: option.splits fault.splits main_pc.splits)

lemma startup_Abort_iff:
  "startup argv root = Abort x tr \<longleftrightarrow>
     2 \<le> length argv \<and> tr = [] \<and>
     (quality_of argv = Throw x \<or>
      (\<exists>quality node. quality_of argv = Return quality \<and> root = Some node \<and>
         discover (argv ! 1) node = Throw x))"
proof (cases "length argv < 2")
  case True
  then show ?thesis by (cases argv) (auto simp: startup_def)
next
  case False
  then show ?thesis
    by (cases "quality_of argv"; cases root)
      (auto simp: startup_branches split: sum.splits prod.splits)
qed

lemma run_main_cases:
  assumes "run_main argv root ls = Some (tr, e)"
  obtains (exit) c where "startup argv root = Exit c tr" "Returned c = e"
  | (abort) x where "startup argv root = Abort x tr" "Terminated x = e"
  | (undefined) "startup argv root = Undefined" "Undefined_run = e"
  | (pool) singleFile quality q s where
      "startup argv root = Dispatch singleFile quality q [Out_found (queue_size q)]"
      "exec singleFile quality ls (pool_init q) = Some s"
      "reachable singleFile quality q s"
      "tr = Out_found (queue_size q) # events s" "pool_ending s = e"
proof (cases "startup argv root")
  case (Dispatch singleFile quality q tr0)
  then have tr0: "tr0 = [Out_found (queue_size q)]" by (simp add: startup_Dispatch_iff)
  from assms Dispatch obtain s where s: "exec singleFile quality ls (pool_init q) = Some s"
    "tr = tr0 @ events s" "pool_ending s = e"
    by (auto simp: run_main_def split: option.splits)
  from reachable_exec [OF reachable.init s(1)] Dispatch tr0 s show ?thesis
    by (intro pool) simp_all
qed (use assms in \<open>auto simp: run_main_def intro: that\<close>)

section \<open>Main results\<close>

text \<open>
  Claim C12. The exit code of \<^verbatim>\<open>main\<close>. Whenever the process ends by \<^verbatim>\<open>main\<close> returning, under
  any schedule of the threads and any answers of the outside world, the exit code is 1
  if the input path argument is missing or names nothing that exists, and 0 in every
  other case, also when jobs have failed.
\<close>

theorem main_exit_code:
  assumes "run_main argv root ls = Some (tr, Returned c)"
  shows "c = (if length argv < 2 \<or> root = None then 1 else 0)"
  using assms
proof (cases rule: run_main_cases)
  case (exit c')
  then show ?thesis by (auto simp: startup_Exit_iff)
next
  case (pool singleFile quality q s)
  then have "main_at s = M_exit c" by (simp add: pool_ending_Returned)
  from pool_inv_exit(1) [OF reachable_inv [OF pool(3)] this] pool(1)
  show ?thesis by (auto simp: startup_Dispatch_iff)
qed simp_all

theorem main_exit_code_witness:
  "run_main [''vidcompress''] None [] = Some ([Err_usage ''vidcompress''], Returned 1) \<and>
   run_main [''vidcompress'', ''videos''] (Some (Directory example_tree))
     (example_schedule @ example_rest) = Some (Out_found 2 # events example_final, Returned 0)"
proof -
  have 1: "run_main [''vidcompress''] None [] = Some ([Err_usage ''vidcompress''], Returned 1)"
    by code_simp
  have 2: "run_main [''vidcompress'', ''videos''] (Some (Directory example_tree))
     (example_schedule @ example_rest) = Some (Out_found 2 # events example_final, Returned 0)"
    by code_simp
  from main_exit_code [OF 1] main_exit_code [OF 2] 1 2 show ?thesis by simp
qed

text \<open>
  Claim C16. What a run that returns 0 has done: the input path exists, the discovery has
  returned a queue, the first message gives its length, and the pool has finished every
  job of that queue exactly once before the last message.
\<close>

theorem main_processes_all_jobs:
  assumes "run_main argv root ls = Some (tr, Returned 0)"
  shows "\<exists>node singleFile quality q s.
           root = Some node \<and> discover (argv ! 1) node = Return (singleFile, q) \<and>
           quality_of argv = Return quality \<and>
           exec singleFile quality ls (pool_init q) = Some s \<and>
           tr = Out_found (length q) # events s \<and> dequeued s = q \<and>
           mset (map fst (results s)) = mset q"
  using assms
proof (cases rule: run_main_cases)
  case (exit c')
  then show ?thesis by (simp add: startup_Exit_iff)
next
  case (pool singleFile quality q s)
  then have "main_at s = M_exit 0" by (simp add: pool_ending_Returned)
  from pool_inv_exit(6,7) [OF reachable_inv [OF pool(3)] this] pool
  show ?thesis by (auto simp: startup_Dispatch_iff queue_size_def)
qed simp_all

theorem main_processes_all_jobs_witness:
  "results example_final = [(''videos/a.mp4'', Succeeded), (''videos/sub/b.mkv'', Failed)] \<and>
   (\<exists>singleFile q s.
      discover ''videos'' (Directory example_tree) = Return (singleFile, q) \<and>
      exec singleFile DEFAULT_QUALITY (example_schedule @ example_rest) (pool_init q) = Some s \<and>
      mset (map fst (results s)) = mset q)"
proof -
  have "run_main [''vidcompress'', ''videos''] (Some (Directory example_tree))
     (example_schedule @ example_rest) = Some (Out_found 2 # events example_final, Returned 0)"
    by code_simp
  from main_processes_all_jobs [OF this] show ?thesis
    by (auto simp: example_final_state quality_of_def)
qed

text \<open>
  Claim C17. How the process can be ended by an exception. The only exceptions that leave
  \<^verbatim>\<open>main\<close> or a thread are the two of \<^verbatim>\<open>std::stoi\<close> on the quality argument, which happen
  before anything is printed, and \<^verbatim>\<open>filesystem_error\<close> from the scan or from
  \<^verbatim>\<open>create_directories\<close>. A quality argument that is not a number therefore ends the
  process abnormally and not with exit code 1, and it does so before the existence of
  the input path is checked.
\<close>

theorem main_terminated:
  assumes "run_main argv root ls = Some (tr, Terminated e)"
  shows "quality_of argv = Throw e \<and> tr = [] \<or> e = Filesystem_error"
  using assms
proof (cases rule: run_main_cases)
  case (abort x)
  then show ?thesis by (auto simp: startup_Abort_iff dest: discover_Throw)
next
  case (pool singleFile quality q s)
  with reachable_invs [OF pool(3)] show ?thesis
    by (auto simp: pool_ending_Terminated outcomes_inv_def)
qed simp_all

theorem main_terminated_witness:
  "run_main [''vidcompress'', ''nowhere'', ''high''] None [] = Some ([], Terminated Invalid_argument) \<and>
   quality_of [''vidcompress'', ''nowhere'', ''high''] = Throw Invalid_argument"
proof -
  have "run_main [''vidcompress'', ''nowhere'', ''high''] None [] = Some ([], Terminated Invalid_argument)"
    by code_simp
  from main_terminated [OF this] this show ?thesis by simp
qed

text \<open>
  Claim C22. With a non-empty argument vector no run of the program has undefined
  behaviour, under any schedule and any answers of the outside world.
\<close>

theorem main_defined:
  assumes "argv \<noteq> []"
  shows "run_main argv root ls \<noteq> Some (tr, Undefined_run)"
proof
  assume "run_main argv root ls = Some (tr, Undefined_run)"
  then show False
  proof (cases rule: run_main_cases)
    case undefined
    with assms show ?thesis by (simp add: startup_Undefined_iff)
  next
    case (pool singleFile quality q s)
    with reachable_invs [OF pool(3)] show ?thesis
      by (simp add: pool_ending_Undefined defined_def)
  qed simp_all
qed

theorem main_defined_witness:
  "run_main [''vidcompress'', ''videos''] (Some (Directory example_tree)) example_schedule \<noteq>
     Some (Out_found 2 # events example_mid, Undefined_run)"
  using main_defined [of "[''vidcompress'', ''videos'']"] by simp

end
