(* ===== verification/Pool_Refinement.thy ===== *)
theory Pool_Refinement
  imports Pool_Correctness
begin

text \<open>
  How the worker pool of \<^verbatim>\<open>src/vid_compress.cpp\<close> relates to \<^verbatim>\<open>compressOne\<close> as a function,
  and that the pool can run to its end.

  \<open>job_reaches\<close> is the small-step reading of \<^verbatim>\<open>compressOne\<close>: the control points a call can
  be at, with the events it has caused so far. It is proved to agree with the function
  \<open>compressOne\<close> of theory \<open>Compress_Job\<close> at the final control points. \<open>trace_inv\<close> carries
  it through the pool: the call a thread is in, and every call that has returned, is
  such a run whose events occur in order among the events of the pool. The last
  section builds a schedule to the end by recursion on \<open>pool_measure\<close>, choosing at each
  state a label that can move and that is not a failure of \<^verbatim>\<open>create_directories\<close>.
\<close>

section \<open>Small steps and the function\<close>

inductive job_reaches :: "path \<Rightarrow> bool \<Rightarrow> int \<Rightarrow> trace \<Rightarrow> job_pc \<Rightarrow> bool"
  for input :: path and singleFile :: bool and quality :: int where
  start: "job_reaches input singleFile quality [] J_start"
| advance: "job_reaches input singleFile quality tr pc \<Longrightarrow>
    job_advance input singleFile quality pc = Some (t, pc') \<Longrightarrow>
    job_reaches input singleFile quality (tr @ t) pc'"
| respond: "job_reaches input singleFile quality tr pc \<Longrightarrow> job_respond pc r = Some pc' \<Longrightarrow>
    job_reaches input singleFile quality tr pc'"

lemma job_respond_no_advance:
  "job_respond pc r = Some pc' \<Longrightarrow> job_advance input singleFile quality pc = None"
  by (cases pc; cases r) simp_all

lemma job_reaches_run:
  "job_reaches input singleFile quality tr pc \<Longrightarrow>
   \<exists>rs. run_job input singleFile quality rs J_start =
     (tr @ fst (run_job input singleFile quality rs' pc),
      snd (run_job input singleFile quality rs' pc))"
proof (induction arbitrary: rs' rule: job_reaches.induct)
  case start
  have "run_job input singleFile quality rs' J_start =
    ([] @ fst (run_job input singleFile quality rs' J_start),
     snd (run_job input singleFile quality rs' J_start))" by simp
  then show ?case ..
next
  case (advance tr pc t pc')
  from advance.IH [of rs'] advance.hyps(2) show ?case by (simp add: run_job_advance)
next
  case (respond tr pc r pc')
  from respond.IH [of "r # rs'"] respond.hyps(2) show ?case
    by (simp add: run_job_respond job_respond_no_advance)
qed

lemma run_job_reaches:
  "job_reaches input singleFile quality tr pc \<Longrightarrow>
   job_reaches input singleFile quality (tr @ fst (run_job input singleFile quality rs pc))
     (snd (run_job input singleFile quality rs pc))"
proof (induction input singleFile quality rs pc arbitrary: tr rule: run_job.induct)
  case (1 input singleFile quality rs pc)
  show ?case
  proof (cases "job_advance input singleFile quality pc")
    case (Some a)
    obtain t pc' where a: "a = (t, pc')" by (cases a)
    from "1.prems" Some a have "job_reaches input singleFile quality (tr @ t) pc'"
      by (auto intro: job_reaches.advance)
    from "1.IH"(2) [OF Some [unfolded a] refl this] Some a show ?thesis
      by (simp add: run_job_advance)
  next
    case None
    show ?thesis
    proof (cases rs)
      case Nil
      with None "1.prems" show ?thesis by (simp add: run_job_Nil)
    next
      case (Cons r rs')
      show ?thesis
      proof (cases "job_respond pc r")
        case no: None
        with None Cons "1.prems" show ?thesis by (subst (1 2) run_job.simps) simp
      next
        case (Some pc')
        with "1.prems" have "job_reaches input singleFile quality tr pc'"
          by (auto intro: job_reaches.respond)
        from "1.IH"(1) [OF None Cons Some this] None Cons Some show ?thesis
          by (simp add: run_job_respond)
      qed
    qed
  qed
qed

lemma job_reaches_final_iff:
  "job_reaches input singleFile quality tr pc \<and> job_final pc \<longleftrightarrow>
   (\<exists>rs. compressOne input singleFile quality rs = (tr, pc)) \<and> job_final pc"
proof (cases "job_final pc")
  case True
  have "\<exists>rs. compressOne input singleFile quality rs = (tr, pc)"
    if "job_reaches input singleFile quality tr pc"
    using job_reaches_run [OF that, of "[]"] True by (simp add: compressOne_def)
  moreover have "job_reaches input singleFile quality tr pc"
    if "compressOne input singleFile quality rs = (tr, pc)" for rs
    using run_job_reaches [OF job_reaches.start, of input singleFile quality rs] that
    by (simp add: compressOne_def)
  ultimately show ?thesis using True by blast
qed simp

section \<open>The jobs of the pool are runs of the function\<close>

definition ran :: "bool \<Rightarrow> int \<Rightarrow> trace \<Rightarrow> path \<Rightarrow> job_pc \<Rightarrow> bool" where
  "ran singleFile quality es job pc \<longleftrightarrow>
     (\<exists>tr. job_reaches job singleFile quality tr pc \<and> subseq tr es)"

fun worker_ran :: "bool \<Rightarrow> int \<Rightarrow> trace \<Rightarrow> worker_pc \<Rightarrow> bool" where
  "worker_ran singleFile quality es (W_job job pc) \<longleftrightarrow> ran singleFile quality es job pc"
| "worker_ran singleFile quality es _ \<longleftrightarrow> True"

definition trace_inv :: "bool \<Rightarrow> int \<Rightarrow> pool \<Rightarrow> bool" where
  "trace_inv singleFile quality s \<longleftrightarrow>
     list_all (worker_ran singleFile quality (events s)) (threads s) \<and>
     list_all (\<lambda>(job, oc). ran singleFile quality (events s) job (J_finished oc)) (results s)"

lemma ran_start [simp]: "ran singleFile quality es job J_start"
  unfolding ran_def by (blast intro: job_reaches.start)

lemma ran_append: "ran singleFile quality es job pc \<Longrightarrow> ran singleFile quality (es @ t) job pc"
  unfolding ran_def by (blast intro: subseq_rev_drop_many)

lemma ran_advance:
  "ran singleFile quality es job pc \<Longrightarrow> job_advance job singleFile quality pc = Some (t, pc') \<Longrightarrow>
   ran singleFile quality (es @ t) job pc'"
  unfolding ran_def by (blast intro: job_reaches.advance list_emb_append_mono subseq_order.refl)

lemma ran_respond:
  "ran singleFile quality es job pc \<Longrightarrow> job_respond pc r = Some pc' \<Longrightarrow>
   ran singleFile quality es job pc'"
  unfolding ran_def by (blast intro: job_reaches.respond)

lemma worker_ran_append:
  "worker_ran singleFile quality es w \<Longrightarrow> worker_ran singleFile quality (es @ t) w"
  by (cases w) (simp_all add: ran_append)

lemma trace_inv_append:
  "trace_inv singleFile quality s \<Longrightarrow> trace_inv singleFile quality (s\<lparr>events := events s @ t\<rparr>)"
  by (auto simp: trace_inv_def list_all_iff intro: worker_ran_append ran_append)

lemma trace_inv_set_thread:
  "trace_inv singleFile quality s \<Longrightarrow> worker_ran singleFile quality (events s) w \<Longrightarrow>
   trace_inv singleFile quality (set_thread t w s)"
  by (simp add: trace_inv_def list_all_update)

lemma trace_inv_at:
  "trace_inv singleFile quality s \<Longrightarrow> t < length (threads s) \<Longrightarrow> threads s ! t = W_job job pc \<Longrightarrow>
   ran singleFile quality (events s) job pc"
  using list_all_nth [of "worker_ran singleFile quality (events s)" "threads s" t]
  by (simp add: trace_inv_def)

lemma trace_inv_trans:
  "pool_trans singleFile quality s l s' \<Longrightarrow> trace_inv singleFile quality s \<Longrightarrow>
   trace_inv singleFile quality s'"
proof (induction rule: pool_trans.induct)
  case (advance s t job pc tr pc')
  from trace_inv_at [OF advance.prems advance.hyps(2,3)] advance.hyps(4)
  have "ran singleFile quality (events s @ tr) job pc'" by (rule ran_advance)
  with trace_inv_append [OF advance.prems, of tr] show ?case
    by (simp add: trace_inv_set_thread)
next
  case (respond s t job pc r pc')
  from trace_inv_at [OF respond.prems respond.hyps(2,3)] respond.hyps(4)
  have "ran singleFile quality (events s) job pc'" by (rule ran_respond)
  with respond.prems show ?case by (simp add: trace_inv_set_thread)
next
  case (return s t job oc)
  from trace_inv_at [OF return.prems return.hyps(2,3)] return.prems show ?case
    by (simp add: trace_inv_def list_all_update)
next
  case (complete s)
  from trace_inv_append [OF complete.prems, of "[Out_complete]"] show ?case
    by (simp add: trace_inv_def)
qed (simp_all add: trace_inv_def list_all_update)

lemma reachable_trace_inv:
  "reachable singleFile quality q s \<Longrightarrow> trace_inv singleFile quality s"
  by (induction rule: reachable.induct)
    (auto simp: trace_inv_def pool_init_def pool_step_iff dest: trace_inv_trans [unfolded trace_inv_def])

text \<open>
  Claim C8. What a worker does with a job is a run of \<^verbatim>\<open>compressOne\<close>. For every job the
  pool has finished there are answers of the outside world for which \<^verbatim>\<open>compressOne\<close> on
  that job returns with the recorded outcome, and the events of that run occur, in
  their order, among the events of the pool.
\<close>

theorem pool_runs_compressOne:
  assumes "reachable singleFile quality q s" and "(job, oc) \<in> set (results s)"
  shows "\<exists>rs tr. compressOne job singleFile quality rs = (tr, J_finished oc) \<and>
                 subseq tr (events s)"
proof -
  from reachable_trace_inv [OF assms(1)] assms(2)
  obtain tr where tr: "job_reaches job singleFile quality tr (J_finished oc)" "subseq tr (events s)"
    by (auto simp: trace_inv_def list_all_iff ran_def)
  from tr(1) have "\<exists>rs. compressOne job singleFile quality rs = (tr, J_finished oc)"
    using job_reaches_final_iff [of job singleFile quality tr "J_finished oc"] by simp
  with tr(2) show ?thesis by blast
qed

theorem pool_runs_compressOne_witness:
  "(''videos/sub/b.mkv'', Failed) \<in> set (results example_final) \<and>
   (\<exists>rs tr. compressOne ''videos/sub/b.mkv'' False 5 rs = (tr, J_finished Failed) \<and>
             subseq tr (events example_final))"
  using pool_runs_compressOne [OF example_final_reachable, of "''videos/sub/b.mkv''" Failed]
  by (simp add: example_final_state)

section \<open>A run to the end exists\<close>

fun not_thrown :: "worker_pc \<Rightarrow> bool" where
  "not_thrown (W_job job (J_thrown e)) \<longleftrightarrow> False"
| "not_thrown _ \<longleftrightarrow> True"

definition calm :: "pool \<Rightarrow> bool" where
  "calm s \<longleftrightarrow> fault s = None \<and> list_all not_thrown (threads s)"

lemma job_advance_not_thrown:
  "job_advance job singleFile quality pc = Some (t, pc') \<Longrightarrow> not_thrown (W_job job' pc')"
  by (cases pc) (auto split: if_splits)

lemma job_respond_not_thrown:
  "job_respond pc r = Some pc' \<Longrightarrow> r \<noteq> Dirs_failed \<Longrightarrow> not_thrown (W_job job pc')"
  by (cases pc; cases r) auto

lemma calm_trans:
  assumes "pool_trans singleFile quality s l s'" "mutex_inv s" "queue_inv s" "calm s" "benign l"
  shows "calm s'"
proof -
  from defined_trans [OF assms(1-3)] have d: "fault s' \<noteq> Some Undefined_behaviour"
    by (simp add: defined_def)
  from assms(1) d assms(4,5) show ?thesis
  proof (induction rule: pool_trans.induct)
    case (throw s t job e)
    with list_all_nth [of not_thrown "threads s" t] show ?case by (simp add: calm_def)
  qed (auto simp: calm_def list_all_update intro!: list_all_update
        intro: job_advance_not_thrown job_respond_not_thrown)
qed

lemma can_complete:
  assumes "reachable singleFile quality q s" "calm s"
  shows "\<exists>ls s'. exec singleFile quality ls s = Some s' \<and> (\<exists>c. main_at s' = M_exit c)"
  using assms
proof (induction "pool_measure s" arbitrary: s rule: less_induct)
  case less
  show ?case
  proof (cases "\<exists>c. main_at s = M_exit c")
    case True
    then have "exec singleFile quality [] s = Some s \<and> (\<exists>c. main_at s = M_exit c)" by simp
    then show ?thesis by blast
  next
    case False
    from reachable_invs [OF less.prems(1)] have inv: "mutex_inv s" "queue_inv s" by simp_all
    from less.prems(2) have "fault s = None" by (simp add: calm_def)
    from main_enabled [OF inv(1) this, of singleFile quality] False
    obtain l s1 where l: "benign l" "pool_step singleFile quality l s = Some s1" by auto
    then have tr: "pool_trans singleFile quality s l s1" by (simp add: pool_step_iff)
    have "pool_measure s1 < pool_measure s" by (rule pool_measure_trans [OF tr])
    moreover have "reachable singleFile quality q s1" by (rule reachable.step [OF less.prems(1) l(2)])
    moreover have "calm s1" by (rule calm_trans [OF tr inv less.prems(2) l(1)])
    ultimately obtain ls s' where "exec singleFile quality ls s1 = Some s'" "\<exists>c. main_at s' = M_exit c"
      using less.hyps by blast
    with l(2) have "exec singleFile quality (l # ls) s = Some s' \<and> (\<exists>c. main_at s' = M_exit c)"
      by simp
    then show ?thesis by blast
  qed
qed

text \<open>
  Claim C7. The pool can always finish. For every queue, mode and quality there is a
  schedule, with answers of the outside world in which \<^verbatim>\<open>create_directories\<close> does not
  throw, that runs from the start of the pool to the return of \<^verbatim>\<open>main\<close> with exit code 0
  and finishes every job of the queue exactly once.
\<close>

theorem pool_can_complete:
  "\<exists>ls s. exec singleFile quality ls (pool_init q) = Some s \<and> main_at s = M_exit 0 \<and>
          fault s = None \<and> dequeued s = q \<and> mset (map fst (results s)) = mset q"
proof -
  have "calm (pool_init q)" by (simp add: calm_def pool_init_def)
  from can_complete [OF reachable.init this]
  obtain ls s c where e: "exec singleFile quality ls (pool_init q) = Some s" and c: "main_at s = M_exit c"
    by blast
  from reachable_exec [OF reachable.init e] have "pool_inv q s" by (rule reachable_inv)
  from pool_inv_exit [OF this c] e c show ?thesis by blast
qed

end
